theory Spec2Isabelle
  imports
    Main
    "HOL-Library.Char_ord"
    "HOL-Library.List_Lexorder"
    "HOL-Library.Sublist"
    "HOL-Library.Multiset"
    "HOL-Library.Word"
    "HOL-Library.AList"
begin

section \<open>Errors and results\<close>

text \<open>
  Go functions return a value together with an \<open>error\<close>, and may panic. An error is a
  value of the datatype below; a function that can fail returns \<open>error + 'a\<close> with
  \<open>Inl\<close> for the error. The named constructors are the package-level error variables
  the code returns (\<open>sql.ErrNoRows\<close>, \<open>errTxHashNotFound\<close>,
  \<open>errTxHashInMultipleBlocks\<close>); \<open>DriverError\<close> stands for any error the
  database driver reports, \<open>OtherError\<close> for an error built from a message only,
  \<open>WrappedError\<close> for \<open>fmt.Errorf\<close> applied to a message and an error.
\<close>

type_synonym bytes = "8 word list"

datatype error =
    ErrNoRows
  | DriverError string
  | errTxHashNotFound
  | errTxHashInMultipleBlocks
  | OtherError string
  | WrappedError string error

text \<open>
  A call either returns or panics. \<open>Returns\<close> carries what the Go function
  returns (for a function with an \<open>error\<close> result, a value of \<open>error + 'a\<close>);
  \<open>Panics\<close> carries the panic value.
\<close>

datatype 'a outcome = Returns 'a | Panics string

text \<open>
  Hashes and addresses (\<open>common.Hash\<close>, \<open>common.Address\<close>) are carried in
  their hexadecimal text form, the form in which the index stores them.
\<close>

type_synonym hash = string
type_synonym address = string

text \<open>
  What \<open>rlp.DecodeBytes\<close> of go-ethereum yields for an \<open>interface{}\<close> target:
  a byte string or a list of such values. The decoder itself is a library function and
  is a parameter \<open>rlpDecode\<close> of the functions that call it.
\<close>

datatype rlp_item = RlpBytes bytes | RlpList "rlp_item list"

type_synonym rlp_decoder = "bytes \<Rightarrow> error + rlp_item"

text \<open>
  Modelled from the spec: the declaration of \<open>eth.EmptyNodeValue\<close> is not among the
  sources at hand (only its uses are). The spec's glossary defines the empty node value
  as the canonical 32-byte-zero storage response.
\<close>

definition EmptyNodeValue :: bytes where
  "EmptyNodeValue = replicate 32 0"

section \<open>The CID retriever (pkg/eth/cid\_retriever.go)\<close>

subsection \<open>Tables of the index\<close>

text \<open>
  A table is the list of its rows in the order in which the database scans them. A
  \<open>SELECT\<close> without \<open>ORDER BY\<close> returns the matching rows in that order; the
  code has no other handle on it. Rows carry the columns the queries of the code name.
\<close>

record uncle_model =
  u_block_number :: int
  u_header_id :: string
  u_block_hash :: string
  u_parent_hash :: string
  u_cid :: string
  u_mh_key :: string
  u_reward :: string

record ipld_model =
  i_key :: string
  i_block_number :: int
  i_data :: bytes

record transaction_cid_row =
  t_cid :: string
  t_tx_hash :: string
  t_block_number :: int
  t_header_id :: string
  t_index :: int
  t_src :: string
  t_dst :: string
  t_mh_key :: string

text \<open>
  The database handle: the tables, the index-provided SQL function
  \<open>canonical_header_hash(block_number)\<close> (\<open>None\<close> is SQL \<open>NULL\<close>), and
  \<open>db_fault\<close>, the error with which the driver fails every statement when the
  connection is broken (\<open>None\<close> for a healthy connection).
\<close>

record header_cid_row =
  hc_block_hash :: string
  hc_block_number :: int

record receipt_model =
  r_block_number :: int
  r_header_id :: string
  r_tx_id :: string
  r_leaf_cid :: string
  r_leaf_mh_key :: string
  r_contract :: string
  r_contract_hash :: string

text \<open>A log row; a topic column may be \<open>NULL\<close> (\<open>None\<close>).\<close>

record log_cid_row =
  l_block_number :: int
  l_header_id :: string
  l_rct_id :: string
  l_index :: int
  l_address :: string
  l_topic0 :: "string option"
  l_topic1 :: "string option"
  l_topic2 :: "string option"
  l_topic3 :: "string option"

record eth_db =
  header_cids :: "header_cid_row list"
  uncle_cids :: "uncle_model list"
  transaction_cids :: "transaction_cid_row list"
  receipt_cids :: "receipt_model list"
  log_cids :: "log_cid_row list"
  blocks :: "ipld_model list"
  canonical_header_hash :: "int \<Rightarrow> string option"
  db_fault :: "error option"

subsection \<open>RetrieveUncleCIDsByHeaderID\<close>

text \<open>
  \<^verbatim>\<open>SELECT ... FROM eth.uncle_cids WHERE header_id = $1\<close>, passed to
  \<open>tx.Select\<close>: the rows of the table whose \<open>header_id\<close> is the argument, in
  scan order. The statement has no \<open>ORDER BY\<close> clause.
\<close>

definition RetrieveUncleCIDsByHeaderID :: "eth_db \<Rightarrow> string \<Rightarrow> error + uncle_model list" where
  "RetrieveUncleCIDsByHeaderID db headerID =
     (case db_fault db of
        Some e \<Rightarrow> Inl e
      | None \<Rightarrow> Inr (filter (\<lambda>u. u_header_id u = headerID) (uncle_cids db)))"

subsection \<open>RetrieveTxCIDByHash\<close>

text \<open>
  The result type \<open>TransactionCIDRecord\<close>: the columns of the transaction row and its
  \<open>IPLD\<close> relation, which \<open>Joins("IPLD")\<close> loads with a left join on
  \<open>(mh_key, block_number) = (key, block_number)\<close>. A transaction row without an IPLD
  block is kept, with an empty relation (\<open>None\<close>).
\<close>

type_synonym TransactionCIDRecord = "transaction_cid_row \<times> ipld_model option"

definition joinIPLD :: "eth_db \<Rightarrow> transaction_cid_row \<Rightarrow> TransactionCIDRecord list" where
  "joinIPLD db t =
     (case filter (\<lambda>b. i_key b = t_mh_key t \<and> i_block_number b = t_block_number t) (blocks db) of
        [] \<Rightarrow> [(t, None)]
      | bs \<Rightarrow> map (\<lambda>b. (t, Some b)) bs)"

text \<open>
  The block number is a \<open>*big.Int\<close>, of any size (\<open>None\<close> is the nil pointer). The code
  binds \<open>blockNumber.Int64()\<close>, which math/big computes from the low 64 bits of the number:
  the number itself when it is an \<open>int64\<close>, and the number wrapped around otherwise.
\<close>

definition Int64 :: "int \<Rightarrow> int" where
  "Int64 x = (x + 2 ^ 63) mod 2 ^ 64 - 2 ^ 63"

text \<open>
  The condition of the \<open>Find\<close> call:
  \<^verbatim>\<open>tx_hash = ? AND transaction_cids.header_id =
    (SELECT canonical_header_hash(transaction_cids.block_number))\<close>
  and, when a block number is passed, \<^verbatim>\<open>AND transaction_cids.block_number = ?\<close>, bound
  to \<open>blockNumber.Int64()\<close>. A comparison with \<open>NULL\<close> is not true.
\<close>

definition txCanonicalCond :: "eth_db \<Rightarrow> string \<Rightarrow> int option \<Rightarrow> transaction_cid_row \<Rightarrow> bool" where
  "txCanonicalCond db txHash blockNumber t =
     (t_tx_hash t = txHash
      \<and> canonical_header_hash db (t_block_number t) = Some (t_header_id t)
      \<and> (case blockNumber of None \<Rightarrow> True | Some n \<Rightarrow> t_block_number t = Int64 n))"

definition findTxCIDs :: "eth_db \<Rightarrow> string \<Rightarrow> int option \<Rightarrow> TransactionCIDRecord list" where
  "findTxCIDs db txHash blockNumber =
     concat (map (joinIPLD db) (filter (txCanonicalCond db txHash blockNumber) (transaction_cids db)))"

definition RetrieveTxCIDByHash :: "eth_db \<Rightarrow> string \<Rightarrow> int option \<Rightarrow> error + TransactionCIDRecord" where
  "RetrieveTxCIDByHash db txHash blockNumber =
     (case db_fault db of
        Some e \<Rightarrow> Inl e
      | None \<Rightarrow>
          (case findTxCIDs db txHash blockNumber of
             [] \<Rightarrow> Inl errTxHashNotFound
           | [r] \<Rightarrow> Inr r
           | _ \<Rightarrow> Inl errTxHashInMultipleBlocks))"

subsection \<open>Subscription settings and the CID wrapper\<close>

text \<open>
  The filter specification \<open>SubscriptionSettings\<close> with the fields the code reads.
  \<open>Start\<close> and \<open>End\<close> are the values of \<open>params.Start.Int64()\<close> and
  \<open>params.End.Int64()\<close>.
\<close>

record HeaderFilter =
  hf_Off :: bool
  hf_Uncles :: bool

record TxFilter =
  xf_Off :: bool
  xf_Src :: "string list"
  xf_Dst :: "string list"

record ReceiptFilter =
  rf_Off :: bool
  rf_MatchTxs :: bool
  rf_LogAddresses :: "string list"
  rf_Topics :: "string list list"

record StateFilter =
  sf_Off :: bool
  sf_Addresses :: "string list"
  sf_IntermediateNodes :: bool

record StorageFilter =
  gf_Off :: bool
  gf_Addresses :: "string list"
  gf_StorageKeys :: "string list"
  gf_IntermediateNodes :: bool

record SubscriptionSettings =
  BackFill :: bool
  BackFillOnly :: bool
  Start :: int
  End :: int
  HeaderFilter :: HeaderFilter
  TxFilter :: TxFilter
  ReceiptFilter :: ReceiptFilter
  StateFilter :: StateFilter
  StorageFilter :: StorageFilter

text \<open>The rows the retrieval steps of \<open>Retrieve\<close> select.\<close>

record header_model =
  h_block_number :: int
  h_block_hash :: string
  h_parent_hash :: string
  h_cid :: string
  h_mh_key :: string
  h_td :: string

record tx_model =
  x_block_number :: int
  x_tx_hash :: string
  x_header_id :: string
  x_cid :: string
  x_mh_key :: string
  x_dst :: string
  x_src :: string
  x_index :: int

record state_node_model =
  s_block_number :: int
  s_header_id :: string
  s_state_leaf_key :: string
  s_node_type :: int
  s_cid :: string
  s_mh_key :: string
  s_state_path :: bytes

record storage_node_model =
  g_block_number :: int
  g_header_id :: string
  g_storage_leaf_key :: string
  g_node_type :: int
  g_cid :: string
  g_mh_key :: string
  g_storage_path :: bytes
  g_state_path :: bytes
  g_state_leaf_key :: string

text \<open>
  \<open>CIDWrapper\<close>. A field the code leaves unset holds Go's zero value: \<open>None\<close> for
  the header struct, the empty list for a nil slice.
\<close>

record CIDWrapper =
  cw_BlockNumber :: int
  cw_Header :: "header_model option"
  cw_Uncles :: "uncle_model list"
  cw_Transactions :: "tx_model list"
  cw_Receipts :: "receipt_model list"
  cw_StateNodes :: "state_node_model list"
  cw_StorageNodes :: "storage_node_model list"

section \<open>The IPLD retriever (pkg/eth/ipld\_retriever.go)\<close>

subsection \<open>Tables\<close>

text \<open>
  The statements of this file are written against the schema in which rows carry
  numeric ids: a state row names its header by \<open>header_id\<close>, a storage row its
  state row by \<open>state_id\<close>, and only \<open>eth.header_cids\<close> has a
  \<open>block_number\<close> column. \<open>canonical_header(block_number)\<close> is the SQL function
  of the index that gives the id of the canonical header at a height (\<open>None\<close> is
  \<open>NULL\<close>). \<open>pg_fault\<close> is the error with which the driver fails every call
  when the connection is broken.
\<close>

record pg_header_cid =
  ph_id :: int
  ph_block_number :: int
  ph_block_hash :: string

record pg_state_cid =
  ps_id :: int
  ps_header_id :: int
  ps_state_leaf_key :: string
  ps_cid :: string
  ps_mh_key :: string
  ps_node_type :: int

record pg_storage_cid =
  pg_id :: int
  pg_state_id :: int
  pg_storage_leaf_key :: string
  pg_cid :: string
  pg_mh_key :: string
  pg_storage_path :: bytes
  pg_node_type :: int

record pg_block =
  pb_key :: string
  pb_data :: bytes

record postgres_db =
  pg_header_cids :: "pg_header_cid list"
  pg_state_cids :: "pg_state_cid list"
  pg_storage_cids :: "pg_storage_cid list"
  pg_blocks :: "pg_block list"
  canonical_header :: "int \<Rightarrow> int option"
  pg_fault :: "error option"

subsection \<open>Statements\<close>

text \<open>
  The scalar subquery \<^verbatim>\<open>(SELECT block_number FROM eth.header_cids WHERE block_hash = $n)\<close>:
  \<open>NULL\<close> when no header has the hash, an error when several have. A comparison
  with \<open>NULL\<close> is not true (\<open>atOrBefore\<close>).
\<close>

definition blockNumberOfHash :: "postgres_db \<Rightarrow> string \<Rightarrow> error + int option" where
  "blockNumberOfHash db hash =
     (case filter (\<lambda>hdr. ph_block_hash hdr = hash) (pg_header_cids db) of
        [] \<Rightarrow> Inr None
      | [hdr] \<Rightarrow> Inr (Some (ph_block_number hdr))
      | _ \<Rightarrow> Inl (DriverError ''pq: more than one row returned by a subquery used as an expression''))"

definition atOrBefore :: "int \<Rightarrow> int option \<Rightarrow> bool" where
  "atOrBefore n limit = (case limit of None \<Rightarrow> False | Some m \<Rightarrow> n \<le> m)"

text \<open>\<^verbatim>\<open>header_cids.id = (SELECT canonical_header(block_number))\<close>.\<close>

definition isCanonical :: "postgres_db \<Rightarrow> pg_header_cid \<Rightarrow> bool" where
  "isCanonical db hdr = (canonical_header db (ph_block_number hdr) = Some (ph_id hdr))"

text \<open>\<^verbatim>\<open>ORDER BY block_number DESC\<close>; \<open>db.Get\<close> then takes the first row.\<close>

definition newestFirst :: "('a \<Rightarrow> int) \<Rightarrow> 'a list \<Rightarrow> 'a list" where
  "newestFirst blockNumber rows = sort_key (\<lambda>row. - blockNumber row) rows"

text \<open>
  \<open>RetrieveAccountByLeafKeyAndBlockHashPgStr\<close>: the join of \<open>eth.state_cids\<close>,
  \<open>eth.header_cids\<close> and \<open>public.blocks\<close>, restricted to the leaf key, to
  heights up to that of the given hash and to canonical headers. The statement does not
  look at \<open>node_type\<close>.
\<close>

type_synonym ipldResult = "string \<times> bytes"

definition accountRows ::
  "postgres_db \<Rightarrow> string \<Rightarrow> int option \<Rightarrow> (pg_state_cid \<times> pg_header_cid \<times> pg_block) list" where
  "accountRows db leafKey limit =
     [(st, hdr, b). st \<leftarrow> pg_state_cids db, hdr \<leftarrow> pg_header_cids db, b \<leftarrow> pg_blocks db,
        ps_header_id st = ph_id hdr \<and> ps_mh_key st = pb_key b
        \<and> ps_state_leaf_key st = leafKey
        \<and> atOrBefore (ph_block_number hdr) limit
        \<and> isCanonical db hdr]"

definition getAccountByLeafKeyAndBlockHash :: "postgres_db \<Rightarrow> string \<Rightarrow> string \<Rightarrow> error + ipldResult" where
  "getAccountByLeafKeyAndBlockHash db leafKey hash =
     (case pg_fault db of
        Some e \<Rightarrow> Inl e
      | None \<Rightarrow>
          (case blockNumberOfHash db hash of
             Inl e \<Rightarrow> Inl e
           | Inr limit \<Rightarrow>
               (case newestFirst (\<lambda>(st, hdr, b). ph_block_number hdr) (accountRows db leafKey limit) of
                  [] \<Rightarrow> Inl ErrNoRows
                | (st, hdr, b) # rows \<Rightarrow> Inr (ps_cid st, pb_data b))))"

text \<open>
  The tail that the functions share: \<open>rlp.DecodeBytes\<close> into a
  \<open>[]interface{}\<close>, which must have two elements, the second a byte string
  (\<open>i[1].([]byte)\<close> panics otherwise). \<open>kind\<close> is the word \<open>state\<close> or
  \<open>storage\<close> of the error messages.
\<close>

definition decodeLeafValue :: "rlp_decoder \<Rightarrow> string \<Rightarrow> string \<Rightarrow> bytes \<Rightarrow> (error + ipldResult) outcome" where
  "decodeLeafValue rlpDecode kind cid nodeData =
     (case rlpDecode nodeData of
        Inl err \<Rightarrow> Returns (Inl (WrappedError (''error decoding '' @ kind @ '' leaf node rlp'') err))
      | Inr (RlpBytes v) \<Rightarrow>
          Returns (Inl (WrappedError (''error decoding '' @ kind @ '' leaf node rlp'')
                     (OtherError ''rlp: expected input list for []interface {}'')))
      | Inr (RlpList i) \<Rightarrow>
          (if length i \<noteq> 2
           then Returns (Inl (OtherError (''eth IPLDRetriever expected '' @ kind
                   @ '' leaf node rlp to decode into two elements'')))
           else (case i ! 1 of
                   RlpBytes v \<Rightarrow> Returns (Inr (cid, v))
                 | RlpList l \<Rightarrow>
                     Panics ''interface conversion: interface {} is []interface {}, not []uint8'')))"

text \<open>
  \<open>RetrieveAccountByAddressAndBlockHash\<close>. \<open>keccak\<close> stands for
  \<open>crypto.Keccak256Hash(address.Bytes()).Hex()\<close>.
\<close>

definition RetrieveAccountByAddressAndBlockHash ::
  "rlp_decoder \<Rightarrow> (address \<Rightarrow> string) \<Rightarrow> postgres_db \<Rightarrow> address \<Rightarrow> hash \<Rightarrow> (error + ipldResult) outcome" where
  "RetrieveAccountByAddressAndBlockHash rlpDecode keccak db addr hash =
     (case getAccountByLeafKeyAndBlockHash db (keccak addr) hash of
        Inl err \<Rightarrow> Returns (Inl err)
      | Inr (cid, nodeData) \<Rightarrow> decodeLeafValue rlpDecode ''state'' cid nodeData)"

text \<open>\<open>retrieveStorageInfoPgStr\<close>, scanned into a \<open>storageInfo\<close>.\<close>

record storageInfo =
  si_CID :: string
  si_Data :: bytes
  si_Path :: bytes
  si_BlockNumber :: int

definition storageRows ::
  "postgres_db \<Rightarrow> string \<Rightarrow> string \<Rightarrow> int option
     \<Rightarrow> (pg_storage_cid \<times> pg_state_cid \<times> pg_header_cid \<times> pg_block) list" where
  "storageRows db stateLeafKey storageLeafKey limit =
     [(sg, st, hdr, b). sg \<leftarrow> pg_storage_cids db, st \<leftarrow> pg_state_cids db,
        hdr \<leftarrow> pg_header_cids db, b \<leftarrow> pg_blocks db,
        pg_state_id sg = ps_id st \<and> ps_header_id st = ph_id hdr \<and> pg_mh_key sg = pb_key b
        \<and> ps_state_leaf_key st = stateLeafKey \<and> pg_storage_leaf_key sg = storageLeafKey
        \<and> atOrBefore (ph_block_number hdr) limit
        \<and> isCanonical db hdr]"

definition retrieveStorageInfo :: "postgres_db \<Rightarrow> string \<Rightarrow> string \<Rightarrow> string \<Rightarrow> error + storageInfo" where
  "retrieveStorageInfo db stateLeafKey storageLeafKey hash =
     (case pg_fault db of
        Some e \<Rightarrow> Inl e
      | None \<Rightarrow>
          (case blockNumberOfHash db hash of
             Inl e \<Rightarrow> Inl e
           | Inr limit \<Rightarrow>
               (case newestFirst (\<lambda>(sg, st, hdr, b). ph_block_number hdr)
                       (storageRows db stateLeafKey storageLeafKey limit) of
                  [] \<Rightarrow> Inl ErrNoRows
                | (sg, st, hdr, b) # rows \<Rightarrow>
                    Inr \<lparr>si_CID = pg_cid sg, si_Data = pb_data b, si_Path = pg_storage_path sg,
                         si_BlockNumber = ph_block_number hdr\<rparr>)))"

text \<open>
  \<open>wasNodeDeletedpgStr\<close>. Its \<open>FROM\<close> clause lists \<open>eth.storage_cids\<close>,
  \<open>eth.state_cids\<close> and \<open>eth.header_cids\<close>; its \<open>WHERE\<close> clause joins the
  first two (\<open>storage_cids.state_id = state_cids.id\<close>) and has no condition that
  relates \<open>eth.header_cids\<close> to them.
\<close>

definition deletionRows ::
  "postgres_db \<Rightarrow> bytes \<Rightarrow> int \<Rightarrow> int option \<Rightarrow> (pg_storage_cid \<times> pg_state_cid \<times> pg_header_cid) list" where
  "deletionRows db path blockNumber limit =
     [(sg, st, hdr). sg \<leftarrow> pg_storage_cids db, st \<leftarrow> pg_state_cids db, hdr \<leftarrow> pg_header_cids db,
        pg_state_id sg = ps_id st
        \<and> pg_storage_path sg = path
        \<and> ph_block_number hdr > blockNumber
        \<and> atOrBefore (ph_block_number hdr) limit
        \<and> pg_node_type sg = 3]"

definition wasNodeDeleted :: "postgres_db \<Rightarrow> bytes \<Rightarrow> int \<Rightarrow> string \<Rightarrow> error + bool" where
  "wasNodeDeleted db path blockNumber hash =
     (case pg_fault db of
        Some e \<Rightarrow> Inl e
      | None \<Rightarrow>
          (case blockNumberOfHash db hash of
             Inl e \<Rightarrow> Inl e
           | Inr limit \<Rightarrow> Inr (deletionRows db path blockNumber limit \<noteq> [])))"

text \<open>
  \<open>RetrieveStorageAtByAddressAndStorageKeyAndBlockHash\<close>. The function's results
  are unnamed, so what its deferred function assigns to \<open>err\<close> (the result of
  \<open>tx.Commit()\<close>) does not reach the caller.
\<close>

definition RetrieveStorageAtByAddressAndStorageKeyAndBlockHash ::
  "rlp_decoder \<Rightarrow> (address \<Rightarrow> string) \<Rightarrow> postgres_db \<Rightarrow> address \<Rightarrow> hash \<Rightarrow> hash \<Rightarrow> (error + ipldResult) outcome" where
  "RetrieveStorageAtByAddressAndStorageKeyAndBlockHash rlpDecode keccak db addr storageLeafKey hash =
     (case pg_fault db of
        Some err \<Rightarrow> Returns (Inl err)
      | None \<Rightarrow>
          (case retrieveStorageInfo db (keccak addr) storageLeafKey hash of
             Inl err \<Rightarrow> Returns (Inl err)
           | Inr storageResult \<Rightarrow>
               (case wasNodeDeleted db (si_Path storageResult) (si_BlockNumber storageResult) hash of
                  Inl err \<Rightarrow> Returns (Inl err)
                | Inr deleted \<Rightarrow>
                    if deleted then Returns (Inr ([], []))
                    else decodeLeafValue rlpDecode ''storage'' (si_CID storageResult) (si_Data storageResult))))"

section \<open>The subscription service (package serve)\<close>

subsection \<open>State\<close>

text \<open>
  Channels are named by numbers. The service never receives on a subscriber's channel:
  every send is a \<open>select\<close> with a \<open>default\<close> branch, so it never blocks, and
  whether the value is taken depends on the receiver. The model records each such
  attempt, in order, in the \<open>trace\<close> of the service, together with the one error
  log entry that C10 is about.
\<close>

type_synonym rpc_id = string
type_synonym chan = nat

datatype flag = EmptyFlag | BackFillCompleteFlag

text \<open>
  \<open>SubscriptionPayload\<close>. \<open>sp_Data\<close> is \<open>None\<close> for a nil slice; \<open>sp_Err\<close> holds
  the error whose text the \<open>Err\<close> string carries, \<open>None\<close> for the empty string.
\<close>

record SubscriptionPayload =
  sp_Data :: "bytes option"
  sp_Err :: "error option"
  sp_Flag :: flag
  sp_Height :: int

record Subscription =
  sub_ID :: rpc_id
  PayloadChan :: chan
  QuitChan :: chan

datatype event =
    TrySendPayload chan SubscriptionPayload
  | TrySendQuit chan
  | LogMissingConfig hash
  | GoBackfill rpc_id int int

text \<open>
  The fields of \<open>Service\<close> that change. \<open>QuitChanClosed\<close>: the service's
  \<open>QuitChan\<close> is made once, in \<open>NewServer\<close>, and is only ever closed.
  \<open>serveWgSet\<close>: \<open>serveWg\<close> is nil until \<open>Serve\<close> sets it. The two maps are
  association lists with distinct keys, kept so by \<open>AList.update\<close> and
  \<open>AList.delete\<close>. Go visits the keys of a map in an unspecified order; the model
  visits them in list order.
\<close>

record Service =
  QuitChanClosed :: bool
  serveWgSet :: bool
  Subscriptions :: "(hash \<times> (rpc_id \<times> Subscription) list) list"
  SubscriptionTypes :: "(hash \<times> SubscriptionSettings) list"
  trace :: "event list"

text \<open>
  The collaborators of the service: the \<open>Retriever\<close>, \<open>Fetcher\<close> and
  \<open>Filterer\<close> interfaces, RLP encoding and Keccak-256. \<open>'p\<close> is the type of a
  converted payload, \<open>'r\<close> of a response (\<open>IPLDs\<close>).
\<close>

record ('p, 'r) collaborators =
  RetrieveFirstBlockNumber :: "error + int"
  RetrieveLastBlockNumber :: "error + int"
  RetrieveAt :: "SubscriptionSettings \<Rightarrow> int \<Rightarrow> CIDWrapper list \<times> bool \<times> error option"
  Fetch :: "CIDWrapper \<Rightarrow> error + 'r"
  Filter :: "SubscriptionSettings \<Rightarrow> 'p \<Rightarrow> error + 'r"
  EncodeSettings :: "SubscriptionSettings \<Rightarrow> error + bytes"
  EncodeResponse :: "'r \<Rightarrow> error + bytes"
  Keccak256Hash :: "bytes \<Rightarrow> hash"
  responseBlockNumber :: "'r \<Rightarrow> int"
  payloadBlockNumber :: "'p \<Rightarrow> int"

definition NewServer :: Service where
  "NewServer = \<lparr>QuitChanClosed = False, serveWgSet = False, Subscriptions = [],
     SubscriptionTypes = [], trace = []\<rparr>"

subsection \<open>Non-blocking sends\<close>

definition emit :: "event \<Rightarrow> Service \<Rightarrow> Service" where
  "emit e s = s\<lparr>trace := trace s @ [e]\<rparr>"

text \<open>
  Modelled from the spec: \<open>sendNonBlockingErr\<close> and \<open>sendNonBlockingQuit\<close> are
  called by the code but declared in a file that is not among the sources. The spec has
  every send non-blocking (try-send with default drop), errors reported on the payload
  channel and a subscription closed through its quit channel.
\<close>

definition errPayload :: "error \<Rightarrow> SubscriptionPayload" where
  "errPayload err = \<lparr>sp_Data = None, sp_Err = Some err, sp_Flag = EmptyFlag, sp_Height = 0\<rparr>"

definition sendNonBlockingErr :: "Subscription \<Rightarrow> error \<Rightarrow> Service \<Rightarrow> Service" where
  "sendNonBlockingErr sub err s = emit (TrySendPayload (PayloadChan sub) (errPayload err)) s"

definition sendNonBlockingQuit :: "Subscription \<Rightarrow> Service \<Rightarrow> Service" where
  "sendNonBlockingQuit sub s = emit (TrySendQuit (QuitChan sub)) s"

subsection \<open>closeType, close, Stop, Unsubscribe\<close>

definition sendQuits :: "(rpc_id \<times> Subscription) list \<Rightarrow> Service \<Rightarrow> Service" where
  "sendQuits subs s = fold (\<lambda>(sid, sub). sendNonBlockingQuit sub) subs s"

definition deleteType :: "hash \<Rightarrow> Service \<Rightarrow> Service" where
  "deleteType subType s =
     s\<lparr>Subscriptions := AList.delete subType (Subscriptions s),
       SubscriptionTypes := AList.delete subType (SubscriptionTypes s)\<rparr>"

text \<open>
  \<open>closeType\<close>: \<open>subs := sap.Subscriptions[subType]\<close> is the nil map when the type
  has no bucket, and the loop over it does nothing.
\<close>

definition closeType :: "hash \<Rightarrow> Service \<Rightarrow> Service" where
  "closeType subType s =
     (let subs = (case map_of (Subscriptions s) subType of None \<Rightarrow> [] | Some m \<Rightarrow> m)
      in deleteType subType (sendQuits subs s))"

text \<open>
  \<open>close\<close> ranges over \<open>sap.Subscriptions\<close> and deletes the entry it is at. A key
  that is gone when the loop reaches it is not visited.
\<close>

definition closeStep :: "hash \<Rightarrow> Service \<Rightarrow> Service" where
  "closeStep subType s =
     (case map_of (Subscriptions s) subType of
        None \<Rightarrow> s
      | Some subs \<Rightarrow> deleteType subType (sendQuits subs s))"

definition close :: "Service \<Rightarrow> Service" where
  "close s = fold closeStep (map fst (Subscriptions s)) s"

text \<open>
  \<open>Stop\<close>: \<open>close(sap.QuitChan)\<close> panics when the channel is closed already;
  nothing guards the call. The function returns a nil error.
\<close>

definition Stop :: "Service \<Rightarrow> Service outcome" where
  "Stop s =
     (if QuitChanClosed s then Panics ''close of closed channel''
      else Returns (close (s\<lparr>QuitChanClosed := True\<rparr>)))"

text \<open>The subscription id is written \<open>sid\<close>: \<open>id\<close> is HOL's identity function.\<close>

definition unsubscribeStep :: "rpc_id \<Rightarrow> hash \<Rightarrow> Service \<Rightarrow> Service" where
  "unsubscribeStep sid ty s =
     (case map_of (Subscriptions s) ty of
        None \<Rightarrow> s
      | Some subs \<Rightarrow>
          (let subs' = AList.delete sid subs;
               s' = s\<lparr>Subscriptions := AList.update ty subs' (Subscriptions s)\<rparr>
           in if length subs' = 0 then deleteType ty s' else s'))"

definition Unsubscribe :: "rpc_id \<Rightarrow> Service \<Rightarrow> Service" where
  "Unsubscribe sid s = fold (unsubscribeStep sid) (map fst (Subscriptions s)) s"

subsection \<open>Start and filterAndServe\<close>

text \<open>
  \<open>Service.Start\<close> (here \<open>ServiceStart\<close>, \<open>Start\<close> being a field of the
  settings) calls \<open>Serve\<close>, which sets \<open>serveWg\<close> and launches the goroutine
  that hands each payload of the indexer to \<open>filterAndServe\<close>.
\<close>

definition ServiceStart :: "Service \<Rightarrow> Service" where
  "ServiceStart s = s\<lparr>serveWgSet := True\<rparr>"

definition livePayload :: "bytes \<Rightarrow> int \<Rightarrow> SubscriptionPayload" where
  "livePayload responseRLP height =
     \<lparr>sp_Data = Some responseRLP, sp_Err = None, sp_Flag = EmptyFlag, sp_Height = height\<rparr>"

text \<open>The body of the loop of \<open>filterAndServe\<close> for the subscription type \<open>ty\<close>.\<close>

definition serveType :: "('p, 'r) collaborators \<Rightarrow> 'p \<Rightarrow> hash \<Rightarrow> Service \<Rightarrow> Service" where
  "serveType c payload ty s =
     (case map_of (Subscriptions s) ty of
        None \<Rightarrow> s
      | Some subs \<Rightarrow>
          (case map_of (SubscriptionTypes s) ty of
             None \<Rightarrow> closeType ty (emit (LogMissingConfig ty) s)
           | Some subConfig \<Rightarrow>
               (if End subConfig > 0 \<and> End subConfig < payloadBlockNumber c payload
                then closeType ty s
                else (case Filter c subConfig payload of
                        Inl err \<Rightarrow> closeType ty s
                      | Inr response \<Rightarrow>
                          (case EncodeResponse c response of
                             Inl err \<Rightarrow> s
                           | Inr responseRLP \<Rightarrow>
                               fold (\<lambda>(sid, sub).
                                      emit (TrySendPayload (PayloadChan sub)
                                        (livePayload responseRLP (responseBlockNumber c response))))
                                 subs s)))))"

text \<open>
  \<open>filterAndServe\<close> calls \<open>sap.serveWg.Add(1)\<close> first, which panics on a nil
  \<open>serveWg\<close>.
\<close>

definition filterAndServe :: "('p, 'r) collaborators \<Rightarrow> 'p \<Rightarrow> Service \<Rightarrow> Service outcome" where
  "filterAndServe c payload s =
     (if \<not> serveWgSet s then Panics ''invalid memory address or nil pointer dereference''
      else Returns (fold (serveType c payload) (map fst (Subscriptions s)) s))"

subsection \<open>sendHistoricalData and the backfill task\<close>

text \<open>
  \<open>sendHistoricalData\<close> computes \<open>startingBlock\<close> and \<open>endingBlock\<close>, launches
  the backfill goroutine and returns nil; it returns the error when the first or the
  last block number of the index cannot be read. \<open>Inr (startingBlock, endingBlock)\<close>
  stands for the goroutine launched with these bounds.
\<close>

definition sendHistoricalData :: "('p, 'r) collaborators \<Rightarrow> SubscriptionSettings \<Rightarrow> error + (int \<times> int)" where
  "sendHistoricalData c params =
     (case RetrieveFirstBlockNumber c of
        Inl err \<Rightarrow> Inl err
      | Inr firstBlock \<Rightarrow>
          (let startingBlock = (if firstBlock < Start params then Start params else firstBlock)
           in (case RetrieveLastBlockNumber c of
                 Inl err \<Rightarrow> Inl err
               | Inr lastBlock \<Rightarrow>
                   (let endingBlock =
                          (if lastBlock > End params \<and> End params > 0 \<and> End params > startingBlock
                           then End params else lastBlock)
                    in Inr (startingBlock, endingBlock)))))"








subsection \<open>Subscribe\<close>

definition addSubscriber :: "hash \<Rightarrow> rpc_id \<Rightarrow> Subscription \<Rightarrow> SubscriptionSettings \<Rightarrow> Service \<Rightarrow> Service" where
  "addSubscriber subscriptionType sid subscription params s =
     (let subs = (case map_of (Subscriptions s) subscriptionType of None \<Rightarrow> [] | Some m \<Rightarrow> m)
      in s\<lparr>Subscriptions :=
             AList.update subscriptionType (AList.update sid subscription subs) (Subscriptions s),
           SubscriptionTypes := AList.update subscriptionType params (SubscriptionTypes s)\<rparr>)"

text \<open>
  \<open>Subscribe\<close> starts with \<open>sap.serveWg.Add(1)\<close>, which panics on a nil
  \<open>serveWg\<close>. The backfill goroutine that \<open>sendHistoricalData\<close> launches is
  recorded in the trace with its bounds; what it sends is \<open>backfillTask\<close>.
\<close>

definition Subscribe ::
  "('p, 'r) collaborators \<Rightarrow> rpc_id \<Rightarrow> chan \<Rightarrow> chan \<Rightarrow> SubscriptionSettings \<Rightarrow> Service \<Rightarrow> Service outcome" where
  "Subscribe c sid sub quitChan params s =
     (if \<not> serveWgSet s then Panics ''invalid memory address or nil pointer dereference''
      else
        (let subscription = \<lparr>sub_ID = sid, PayloadChan = sub, QuitChan = quitChan\<rparr>
         in (case EncodeSettings c params of
               Inl err \<Rightarrow>
                 Returns (sendNonBlockingQuit subscription (sendNonBlockingErr subscription err s))
             | Inr encoded \<Rightarrow>
                 (let subscriptionType = Keccak256Hash c encoded;
                      s1 = (if \<not> BackFillOnly params
                            then addSubscriber subscriptionType sid subscription params s else s)
                  in if BackFill params \<or> BackFillOnly params
                     then (case sendHistoricalData c params of
                             Inl err \<Rightarrow>
                               Returns (sendNonBlockingQuit subscription
                                 (sendNonBlockingErr subscription
                                   (WrappedError ''eth ipld server subscription backfill error'' err) s1))
                           | Inr (startingBlock, endingBlock) \<Rightarrow>
                               Returns (emit (GoBackfill sid startingBlock endingBlock) s1))
                     else Returns s1))))"

subsection \<open>Sequences of calls\<close>

text \<open>
  The calls that change the state of the service. \<open>run\<close> gives the state after a
  sequence of calls on a state; a call that panics leaves the state as it found it
  (each of the panics above comes before the first change).
\<close>

datatype 'p call =
    CallStart
  | CallSubscribe rpc_id chan chan SubscriptionSettings
  | CallUnsubscribe rpc_id
  | CallFilterAndServe 'p
  | CallCloseType hash
  | CallStop

definition perform :: "('p, 'r) collaborators \<Rightarrow> 'p call \<Rightarrow> Service \<Rightarrow> Service outcome" where
  "perform c cl s =
     (case cl of
        CallStart \<Rightarrow> Returns (ServiceStart s)
      | CallSubscribe sid sub quitChan params \<Rightarrow> Subscribe c sid sub quitChan params s
      | CallUnsubscribe sid \<Rightarrow> Returns (Unsubscribe sid s)
      | CallFilterAndServe payload \<Rightarrow> filterAndServe c payload s
      | CallCloseType subType \<Rightarrow> Returns (closeType subType s)
      | CallStop \<Rightarrow> Stop s)"

definition step :: "('p, 'r) collaborators \<Rightarrow> 'p call \<Rightarrow> Service \<Rightarrow> Service" where
  "step c cl s = (case perform c cl s of Returns s' \<Rightarrow> s' | Panics p \<Rightarrow> s)"

definition run :: "('p, 'r) collaborators \<Rightarrow> 'p call list \<Rightarrow> Service \<Rightarrow> Service" where
  "run c calls s = fold (step c) calls s"

text \<open>The keys of the two maps, and whether the trace holds the missing-configuration log entry.\<close>

definition subscriptionKeys :: "Service \<Rightarrow> hash set" where
  "subscriptionKeys s = dom (map_of (Subscriptions s))"

definition typeKeys :: "Service \<Rightarrow> hash set" where
  "typeKeys s = dom (map_of (SubscriptionTypes s))"

fun isMissingConfig :: "event \<Rightarrow> bool" where
  "isMissingConfig (LogMissingConfig ty) = True"
| "isMissingConfig e = False"

definition missingConfigLogged :: "Service \<Rightarrow> bool" where
  "missingConfigLogged s = list_ex isMissingConfig (trace s)"

section \<open>The GraphQL resolver (package graphql)\<close>

record StorageResult =
  sr_value :: bytes
  sr_cid :: string
  sr_ipldBlock :: bytes

text \<open>
  \<open>Resolver.GetStorageAt\<close>. The lookup
  \<open>IPLDRetriever.RetrieveStorageAtByAddressAndStorageSlotAndBlockHash\<close> of the backend
  is the parameter \<open>retrieve\<close>; it yields the CID, the IPLD block and the RLP of the
  value, or an error. The type assertion \<open>value.([]byte)\<close> panics when the decoded
  value is a list.
\<close>

type_synonym storage_lookup = "address \<Rightarrow> hash \<Rightarrow> hash \<Rightarrow> error + (string \<times> bytes \<times> bytes)"

definition GetStorageAt ::
  "storage_lookup \<Rightarrow> rlp_decoder \<Rightarrow> hash \<Rightarrow> address \<Rightarrow> hash \<Rightarrow> (error + StorageResult) outcome" where
  "GetStorageAt retrieve rlpDecode blockHash contract slot =
     (case retrieve contract slot blockHash of
        Inl err \<Rightarrow>
          (if err = ErrNoRows
           then Returns (Inr \<lparr>sr_value = [], sr_cid = [], sr_ipldBlock = []\<rparr>)
           else Returns (Inl err))
      | Inr (cid, ipldBlock, rlpValue) \<Rightarrow>
          (if rlpValue = EmptyNodeValue
           then Returns (Inr \<lparr>sr_value = EmptyNodeValue, sr_cid = cid, sr_ipldBlock = ipldBlock\<rparr>)
           else (case rlpDecode rlpValue of
                   Inl err \<Rightarrow> Returns (Inl err)
                 | Inr (RlpBytes v) \<Rightarrow>
                     Returns (Inr \<lparr>sr_value = v, sr_cid = cid, sr_ipldBlock = ipldBlock\<rparr>)
                 | Inr (RlpList _) \<Rightarrow>
                     Panics ''interface conversion: interface {} is []interface {}, not []uint8'')))"


subsection \<open>RetrieveRctCIDs and the receipt filter\<close>

text \<open>
  The code assembles the text of a statement (\<open>pgStr\<close>) and the list of its
  arguments (\<open>args\<close>), numbering the placeholders \<open>$1, $2, ...\<close> with the
  counter \<open>id\<close> (here \<open>pid\<close>). The text that follows the fixed \<open>SELECT ... FROM
  ... WHERE\<close> part is modelled as the list of the pieces the code appends, one token
  for each piece:
  \<^item> \<open>KwAnd\<close>, \<open>KwOr\<close>, \<open>LParen\<close>, \<open>RParen\<close>: \<^verbatim>\<open>AND\<close>, \<^verbatim>\<open>OR\<close>, \<^verbatim>\<open>(\<close>, \<^verbatim>\<open>)\<close>;
  \<^item> \<open>HeaderBlockNumberEq n\<close>: \<^verbatim>\<open>header_cids.block_number = $n\<close>;
  \<^item> \<open>HeaderBlockHashEq n\<close>: \<^verbatim>\<open>header_cids.block_hash = $n\<close>;
  \<^item> \<open>TxIdAnyOpen\<close>: \<^verbatim>\<open>receipt_cids.tx_id = ANY (\<close>;
  \<^item> \<open>SelectRctIdFromLogCidsWhere\<close>: \<^verbatim>\<open>SELECT rct_id FROM eth.log_cids WHERE\<close>;
  \<^item> \<open>LogAddressAny n\<close>: \<^verbatim>\<open>eth.log_cids.address = ANY ($n)\<close>;
  \<^item> \<open>LogTopicAny i n\<close>: \<^verbatim>\<open>eth.log_cids.topic<i> = ANY ($n)\<close>;
  \<^item> \<open>TxIdAny n\<close>: \<^verbatim>\<open>receipt_cids.tx_id = ANY($n)\<close>.
\<close>

datatype sql_arg = ArgText string | ArgBigint int | ArgTextArray "string list"

datatype sql_token =
    KwAnd
  | KwOr
  | LParen
  | RParen
  | HeaderBlockNumberEq nat
  | HeaderBlockHashEq nat
  | TxIdAnyOpen
  | SelectRctIdFromLogCidsWhere
  | LogAddressAny nat
  | LogTopicAny nat nat
  | TxIdAny nat

type_synonym sql_text = "sql_token list"

definition hasTopics :: "string list list \<Rightarrow> bool" where
  "hasTopics topics = list_ex (\<lambda>topicSet. length topicSet > 0) topics"

text \<open>
  The loop of \<open>topicFilterCondition\<close> over \<open>topics\<close>, at position \<open>i\<close>. The
  functions return the counter with the text and the arguments.
\<close>

fun topicFilterLoop ::
  "nat \<Rightarrow> string list list \<Rightarrow> nat \<Rightarrow> sql_arg list \<Rightarrow> sql_text \<Rightarrow> bool \<Rightarrow> nat \<times> sql_text \<times> sql_arg list" where
  "topicFilterLoop i [] pid args pgStr first = (pid, pgStr, args)"
| "topicFilterLoop i (topicSet # topics) pid args pgStr first =
     (if length topicSet = 0 then topicFilterLoop (i + 1) topics pid args pgStr first
      else topicFilterLoop (i + 1) topics (pid + 1) (args @ [ArgTextArray topicSet])
             ((if \<not> first then pgStr @ [KwAnd] else pgStr) @ [LogTopicAny i pid]) False)"

definition topicFilterCondition ::
  "nat \<Rightarrow> string list list \<Rightarrow> sql_arg list \<Rightarrow> sql_text \<Rightarrow> bool \<Rightarrow> nat \<times> sql_text \<times> sql_arg list" where
  "topicFilterCondition pid topics args pgStr first = topicFilterLoop 0 topics pid args pgStr first"

text \<open>
  The lines that both log branches of \<open>receiptFilterConditions\<close> share: the
  \<^verbatim>\<open>OR receipt_cids.tx_id = ANY($n)\<close> for the transaction hashes. The counter is not
  advanced after it.
\<close>

definition orTxHashes ::
  "ReceiptFilter \<Rightarrow> string list \<Rightarrow> nat \<Rightarrow> sql_text \<Rightarrow> sql_arg list \<Rightarrow> sql_text \<times> sql_arg list" where
  "orTxHashes rctFilter txHashes pid pgStr args =
     (if rf_MatchTxs rctFilter \<and> length txHashes > 0
      then (pgStr @ [KwOr, TxIdAny pid], args @ [ArgTextArray txHashes])
      else (pgStr, args))"

definition receiptFilterConditions ::
  "nat \<Rightarrow> sql_text \<Rightarrow> sql_arg list \<Rightarrow> ReceiptFilter \<Rightarrow> string list \<Rightarrow> nat \<times> sql_text \<times> sql_arg list" where
  "receiptFilterConditions pid pgStr args rctFilter txHashes =
     (let rctCond = [KwAnd, LParen, TxIdAnyOpen];
          logQuery = [SelectRctIdFromLogCidsWhere]
      in if length (rf_LogAddresses rctFilter) > 0 then
           (let pgStr1 = pgStr @ rctCond @ logQuery @ [LogAddressAny pid];
                args1 = args @ [ArgTextArray (rf_LogAddresses rctFilter)];
                pid1 = pid + 1;
                (pid2, pgStr2, args2) =
                   (if hasTopics (rf_Topics rctFilter)
                    then topicFilterCondition pid1 (rf_Topics rctFilter) args1 pgStr1 False
                    else (pid1, pgStr1, args1));
                (pgStr3, args3) = orTxHashes rctFilter txHashes pid2 (pgStr2 @ [RParen]) args2
            in (pid2, pgStr3 @ [RParen], args3))
         else if hasTopics (rf_Topics rctFilter) then
           (let (pid2, pgStr2, args2) =
                   topicFilterCondition pid (rf_Topics rctFilter) args (pgStr @ rctCond @ logQuery) True;
                (pgStr3, args3) = orTxHashes rctFilter txHashes pid2 (pgStr2 @ [RParen]) args2
            in (pid2, pgStr3 @ [RParen], args3))
         else if rf_MatchTxs rctFilter \<and> length txHashes > 0 then
           (pid, pgStr @ [KwAnd, TxIdAny pid], args @ [ArgTextArray txHashes])
         else (pid, pgStr, args))"

text \<open>
  What the database makes of the statement. The text is read as a list of conditions
  joined by \<^verbatim>\<open>AND\<close>; a text that does not read so is a syntax error. \<open>log_cond\<close>
  is a condition on a row of \<open>eth.log_cids\<close> inside the subquery, \<open>rct_cond\<close> a
  condition on a row of the join.
\<close>

datatype log_cond = LogAddressIn nat | LogTopicIn nat nat

datatype rct_cond =
    HeaderNumberIs nat
  | HeaderHashIs nat
  | TxIdIn nat
  | TxIdInLogs "log_cond list"
  | TxIdInLogsOrIn "log_cond list" nat

fun parseLogCond :: "sql_token \<Rightarrow> log_cond option" where
  "parseLogCond (LogAddressAny n) = Some (LogAddressIn n)"
| "parseLogCond (LogTopicAny i n) = Some (LogTopicIn i n)"
| "parseLogCond t = None"

fun parseLogWhere :: "sql_text \<Rightarrow> log_cond list option" where
  "parseLogWhere [] = None"
| "parseLogWhere [t] = map_option (\<lambda>c. [c]) (parseLogCond t)"
| "parseLogWhere (t # k # ts) =
     (if k = KwAnd
      then (case parseLogCond t of
              None \<Rightarrow> None
            | Some c \<Rightarrow> map_option (Cons c) (parseLogWhere ts))
      else None)"

definition parseOrTxIdAny :: "sql_text \<Rightarrow> nat option" where
  "parseOrTxIdAny ts =
     (case ts of
        [a, b, c, d] \<Rightarrow>
          (case c of
             TxIdAny n \<Rightarrow> if a = RParen \<and> b = KwOr \<and> d = RParen then Some n else None
           | _ \<Rightarrow> None)
      | _ \<Rightarrow> None)"

definition parseLogGroup :: "sql_text \<Rightarrow> rct_cond option" where
  "parseLogGroup ts =
     (case parseLogWhere (takeWhile (\<lambda>t. t \<noteq> RParen) ts) of
        None \<Rightarrow> None
      | Some cs \<Rightarrow>
          (let rest = dropWhile (\<lambda>t. t \<noteq> RParen) ts
           in if rest = [RParen, RParen] then Some (TxIdInLogs cs)
              else map_option (TxIdInLogsOrIn cs) (parseOrTxIdAny rest)))"

definition parseLogGroupOpen :: "sql_text \<Rightarrow> rct_cond option" where
  "parseLogGroupOpen ts =
     (case ts of
        a # b # rest \<Rightarrow>
          if a = TxIdAnyOpen \<and> b = SelectRctIdFromLogCidsWhere then parseLogGroup rest else None
      | _ \<Rightarrow> None)"

fun parseWhereTail :: "sql_text \<Rightarrow> rct_cond list option" where
  "parseWhereTail [] = Some []"
| "parseWhereTail [k] = None"
| "parseWhereTail (k # c # ts) =
     (if k = KwAnd
      then (case c of
              HeaderBlockNumberEq n \<Rightarrow> map_option (Cons (HeaderNumberIs n)) (parseWhereTail ts)
            | HeaderBlockHashEq n \<Rightarrow> map_option (Cons (HeaderHashIs n)) (parseWhereTail ts)
            | TxIdAny n \<Rightarrow> map_option (Cons (TxIdIn n)) (parseWhereTail ts)
            | LParen \<Rightarrow> map_option (\<lambda>g. [g]) (parseLogGroupOpen ts)
            | _ \<Rightarrow> None)
      else None)"


text \<open>
  Arguments are looked up by placeholder number. A condition is valid when its
  placeholder holds an argument of the right kind and its column exists
  (\<open>eth.log_cids\<close> has the topic columns \<open>topic0\<close> to \<open>topic3\<close>). A comparison
  with \<open>NULL\<close> is not true.
\<close>

definition argAt :: "sql_arg list \<Rightarrow> nat \<Rightarrow> sql_arg option" where
  "argAt args n = (if 1 \<le> n \<and> n \<le> length args then Some (args ! (n - 1)) else None)"

definition textArrayAt :: "sql_arg list \<Rightarrow> nat \<Rightarrow> string list option" where
  "textArrayAt args n = (case argAt args n of Some (ArgTextArray xs) \<Rightarrow> Some xs | _ \<Rightarrow> None)"

definition topicColumn :: "nat \<Rightarrow> log_cid_row \<Rightarrow> string option option" where
  "topicColumn i lg =
     (if i = 0 then Some (l_topic0 lg) else if i = 1 then Some (l_topic1 lg)
      else if i = 2 then Some (l_topic2 lg) else if i = 3 then Some (l_topic3 lg) else None)"

fun validLogCond :: "sql_arg list \<Rightarrow> log_cond \<Rightarrow> bool" where
  "validLogCond args (LogAddressIn n) = (textArrayAt args n \<noteq> None)"
| "validLogCond args (LogTopicIn i n) = (i < 4 \<and> textArrayAt args n \<noteq> None)"

fun validCond :: "sql_arg list \<Rightarrow> rct_cond \<Rightarrow> bool" where
  "validCond args (HeaderNumberIs n) = (case argAt args n of Some (ArgBigint k) \<Rightarrow> True | _ \<Rightarrow> False)"
| "validCond args (HeaderHashIs n) = (case argAt args n of Some (ArgText h) \<Rightarrow> True | _ \<Rightarrow> False)"
| "validCond args (TxIdIn n) = (textArrayAt args n \<noteq> None)"
| "validCond args (TxIdInLogs cs) = list_all (validLogCond args) cs"
| "validCond args (TxIdInLogsOrIn cs n) = (list_all (validLogCond args) cs \<and> textArrayAt args n \<noteq> None)"

fun logPlaceholder :: "log_cond \<Rightarrow> nat" where
  "logPlaceholder (LogAddressIn n) = n"
| "logPlaceholder (LogTopicIn i n) = n"

fun placeholders :: "rct_cond \<Rightarrow> nat list" where
  "placeholders (HeaderNumberIs n) = [n]"
| "placeholders (HeaderHashIs n) = [n]"
| "placeholders (TxIdIn n) = [n]"
| "placeholders (TxIdInLogs cs) = map logPlaceholder cs"
| "placeholders (TxIdInLogsOrIn cs n) = map logPlaceholder cs @ [n]"

fun holdsLog :: "sql_arg list \<Rightarrow> log_cid_row \<Rightarrow> log_cond \<Rightarrow> bool" where
  "holdsLog args lg (LogAddressIn n) =
     (case textArrayAt args n of Some xs \<Rightarrow> l_address lg \<in> set xs | None \<Rightarrow> False)"
| "holdsLog args lg (LogTopicIn i n) =
     (case textArrayAt args n of
        Some xs \<Rightarrow> (case topicColumn i lg of Some (Some v) \<Rightarrow> v \<in> set xs | _ \<Rightarrow> False)
      | None \<Rightarrow> False)"

text \<open>
  The subquery \<^verbatim>\<open>SELECT rct_id FROM eth.log_cids WHERE ...\<close>. It ranges over all rows
  of \<open>eth.log_cids\<close>: the statement relates it to the outer row through
  \<open>receipt_cids.tx_id = ANY (...)\<close> only.
\<close>

definition selectRctIdFromLogCids :: "eth_db \<Rightarrow> sql_arg list \<Rightarrow> log_cond list \<Rightarrow> string list" where
  "selectRctIdFromLogCids db args cs =
     map l_rct_id (filter (\<lambda>lg. list_all (holdsLog args lg) cs) (log_cids db))"

type_synonym rct_join_row = "receipt_model \<times> transaction_cid_row \<times> header_cid_row"

fun holds :: "eth_db \<Rightarrow> sql_arg list \<Rightarrow> rct_join_row \<Rightarrow> rct_cond \<Rightarrow> bool" where
  "holds db args (r, t, h) (HeaderNumberIs n) =
     (case argAt args n of Some (ArgBigint k) \<Rightarrow> hc_block_number h = k | _ \<Rightarrow> False)"
| "holds db args (r, t, h) (HeaderHashIs n) =
     (case argAt args n of Some (ArgText x) \<Rightarrow> hc_block_hash h = x | _ \<Rightarrow> False)"
| "holds db args (r, t, h) (TxIdIn n) =
     (case textArrayAt args n of Some xs \<Rightarrow> r_tx_id r \<in> set xs | None \<Rightarrow> False)"
| "holds db args (r, t, h) (TxIdInLogs cs) = (r_tx_id r \<in> set (selectRctIdFromLogCids db args cs))"
| "holds db args (r, t, h) (TxIdInLogsOrIn cs n) =
     (r_tx_id r \<in> set (selectRctIdFromLogCids db args cs)
      \<or> (case textArrayAt args n of Some xs \<Rightarrow> r_tx_id r \<in> set xs | None \<Rightarrow> False))"

text \<open>
  The fixed part of the statement of \<open>RetrieveRctCIDs\<close>: the join of
  \<open>eth.receipt_cids\<close>, \<open>eth.transaction_cids\<close> and \<open>eth.header_cids\<close> on
  \<^verbatim>\<open>receipt_cids.tx_id = transaction_cids.tx_hash AND receipt_cids.header_id =
  transaction_cids.header_id AND receipt_cids.block_number = transaction_cids.block_number
  AND transaction_cids.header_id = header_cids.block_hash AND transaction_cids.block_number =
  header_cids.block_number\<close>, the receipt columns selected,
  \<^verbatim>\<open>ORDER BY transaction_cids.index\<close>.
\<close>

definition rctJoined :: "rct_join_row \<Rightarrow> bool" where
  "rctJoined row =
     (case row of (r, t, h) \<Rightarrow>
        r_tx_id r = t_tx_hash t \<and> r_header_id r = t_header_id t
        \<and> r_block_number r = t_block_number t
        \<and> t_header_id t = hc_block_hash h \<and> t_block_number t = hc_block_number h)"

definition rctJoin :: "eth_db \<Rightarrow> rct_join_row list" where
  "rctJoin db =
     filter rctJoined
       (concat (map (\<lambda>r. concat (map (\<lambda>t. map (\<lambda>h. (r, t, h)) (header_cids db)) (transaction_cids db)))
          (receipt_cids db)))"

text \<open>
  \<open>tx.Select\<close> of the statement: the driver refuses a statement whose number of
  arguments is not the number of its placeholders.
\<close>

definition selectReceipts :: "eth_db \<Rightarrow> sql_text \<Rightarrow> sql_arg list \<Rightarrow> error + receipt_model list" where
  "selectReceipts db pgStr args =
     (case db_fault db of
        Some e \<Rightarrow> Inl e
      | None \<Rightarrow>
          (case parseWhereTail pgStr of
             None \<Rightarrow> Inl (DriverError ''pq: syntax error'')
           | Some conds \<Rightarrow>
               if concat (map placeholders conds) \<noteq> [1 ..< Suc (length args)]
               then Inl (DriverError ''pq: wrong number of parameters'')
               else if \<not> list_all (validCond args) conds
               then Inl (DriverError ''pq: undefined column or operator'')
               else Inr (map fst
                      (sort_key (\<lambda>(r, t, h). t_index t)
                         (filter (\<lambda>row. list_all (holds db args row) conds) (rctJoin db))))))"

definition RetrieveRctCIDs ::
  "eth_db \<Rightarrow> ReceiptFilter \<Rightarrow> int \<Rightarrow> string \<Rightarrow> string list \<Rightarrow> error + receipt_model list" where
  "RetrieveRctCIDs db rctFilter blockNumber blockHash txHashes =
     (let (pid1, pgStr1, args1) =
            (if blockNumber > 0
             then (2, [KwAnd, HeaderBlockNumberEq 1], [ArgBigint blockNumber])
             else (1, [], []));
          (pid2, pgStr2, args2) =
            (if blockHash \<noteq> []
             then (pid1 + 1, pgStr1 @ [KwAnd, HeaderBlockHashEq pid1], args1 @ [ArgText blockHash])
             else (pid1, pgStr1, args1));
          (pid3, pgStr3, args3) = receiptFilterConditions pid2 pgStr2 args2 rctFilter txHashes
      in selectReceipts db pgStr3 args3)"


text \<open>
  The logs of a receipt, as the log queries of the same file (\<open>RetrieveFilteredGQLLogs\<close>,
  \<open>RetrieveFilteredLog\<close>) join them:
  \<^verbatim>\<open>log_cids.rct_id = receipt_cids.tx_id AND log_cids.header_id = receipt_cids.header_id
  AND log_cids.block_number = receipt_cids.block_number\<close>.
\<close>

definition logsOfReceipt :: "eth_db \<Rightarrow> receipt_model \<Rightarrow> log_cid_row list" where
  "logsOfReceipt db r =
     filter (\<lambda>lg. l_rct_id lg = r_tx_id r \<and> l_header_id lg = r_header_id r
                  \<and> l_block_number lg = r_block_number r) (log_cids db)"

subsection \<open>The receipt filter in closed form\<close>

text \<open>
  The tokens, the conditions and the arguments the loop of \<open>topicFilterCondition\<close> produces for the
  topic positions from \<open>i\<close> on, with the next placeholder \<open>pid\<close>: one
  \<^verbatim>\<open>eth.log_cids.topic<i> = ANY ($pid)\<close> for each position with a non-empty list, joined by
  \<open>AND\<close>.
\<close>

fun topicTokens :: "nat \<Rightarrow> string list list \<Rightarrow> nat \<Rightarrow> bool \<Rightarrow> sql_text" where
  "topicTokens i [] pid first = []"
| "topicTokens i (topicSet # topics) pid first =
     (if topicSet = [] then topicTokens (i + 1) topics pid first
      else (if first then [] else [KwAnd]) @ LogTopicAny i pid # topicTokens (i + 1) topics (pid + 1) False)"

fun topicConds :: "nat \<Rightarrow> string list list \<Rightarrow> nat \<Rightarrow> log_cond list" where
  "topicConds i [] pid = []"
| "topicConds i (topicSet # topics) pid =
     (if topicSet = [] then topicConds (i + 1) topics pid
      else LogTopicIn i pid # topicConds (i + 1) topics (pid + 1))"

definition topicArgs :: "string list list \<Rightarrow> sql_arg list" where
  "topicArgs topics = map ArgTextArray (filter (\<lambda>topicSet. topicSet \<noteq> []) topics)"

text \<open>
  What \<open>receiptFilterConditions\<close> adds to the statement, as conditions, and the arguments it
  appends: the hash list is used when \<open>MatchTxs\<close> is set and hashes are given, the log subquery
  when there is an address or a topic restriction.
\<close>

definition byHashes :: "ReceiptFilter \<Rightarrow> string list \<Rightarrow> bool" where
  "byHashes f txHashes = (rf_MatchTxs f \<and> txHashes \<noteq> [])"

definition byLogs :: "ReceiptFilter \<Rightarrow> bool" where
  "byLogs f = (rf_LogAddresses f \<noteq> [] \<or> hasTopics (rf_Topics f))"

definition filterConds :: "nat \<Rightarrow> ReceiptFilter \<Rightarrow> string list \<Rightarrow> rct_cond list" where
  "filterConds pid f txHashes =
     (if rf_LogAddresses f \<noteq> [] then
        (let cs = LogAddressIn pid # topicConds 0 (rf_Topics f) (pid + 1);
             n = pid + 1 + length (topicArgs (rf_Topics f))
         in [if byHashes f txHashes then TxIdInLogsOrIn cs n else TxIdInLogs cs])
      else if hasTopics (rf_Topics f) then
        (let cs = topicConds 0 (rf_Topics f) pid;
             n = pid + length (topicArgs (rf_Topics f))
         in [if byHashes f txHashes then TxIdInLogsOrIn cs n else TxIdInLogs cs])
      else if byHashes f txHashes then [TxIdIn pid]
      else [])"

definition filterArgs :: "ReceiptFilter \<Rightarrow> string list \<Rightarrow> sql_arg list" where
  "filterArgs f txHashes =
     (if rf_LogAddresses f \<noteq> [] then [ArgTextArray (rf_LogAddresses f)] else [])
     @ topicArgs (rf_Topics f)
     @ (if byHashes f txHashes then [ArgTextArray txHashes] else [])"

text \<open>
  A log matches the restrictions of a filter when its address is among \<open>LogAddresses\<close> (no
  address restricts nothing) and, at each topic position with a non-empty list, its topic is in the
  list. A \<open>NULL\<close> topic is in no list.
\<close>

fun topicsMatchFrom :: "nat \<Rightarrow> string list list \<Rightarrow> log_cid_row \<Rightarrow> bool" where
  "topicsMatchFrom i [] lg = True"
| "topicsMatchFrom i (topicSet # topics) lg =
     ((topicSet = [] \<or> (case topicColumn i lg of Some (Some v) \<Rightarrow> v \<in> set topicSet | _ \<Rightarrow> False))
      \<and> topicsMatchFrom (i + 1) topics lg)"

definition logMatches :: "ReceiptFilter \<Rightarrow> log_cid_row \<Rightarrow> bool" where
  "logMatches f lg =
     ((rf_LogAddresses f = [] \<or> l_address lg \<in> set (rf_LogAddresses f))
      \<and> topicsMatchFrom 0 (rf_Topics f) lg)"

text \<open>
  The two header conditions of \<open>RetrieveRctCIDs\<close>: the block number when it is positive, the block
  hash when it is not empty.
\<close>

definition headerMatches :: "int \<Rightarrow> string \<Rightarrow> header_cid_row \<Rightarrow> bool" where
  "headerMatches blockNumber blockHash h =
     ((blockNumber > 0 \<longrightarrow> hc_block_number h = blockNumber)
      \<and> (blockHash \<noteq> [] \<longrightarrow> hc_block_hash h = blockHash))"

text \<open>
  The receipts a filter selects, in two readings. \<open>rctSelected\<close> identifies the logs of a receipt as
  the subquery of \<open>receiptFilterConditions\<close> does, by \<open>rct_id\<close> alone; \<open>selectedByOwnLogs\<close> takes
  the logs of the receipt, \<open>logsOfReceipt\<close>. With no log restriction and no hash list every receipt
  is selected.
\<close>

definition rctSelected :: "eth_db \<Rightarrow> ReceiptFilter \<Rightarrow> string list \<Rightarrow> receipt_model \<Rightarrow> bool" where
  "rctSelected db f txHashes r =
     (if \<not> byLogs f \<and> \<not> byHashes f txHashes then True
      else (byLogs f \<and> list_ex (\<lambda>lg. l_rct_id lg = r_tx_id r \<and> logMatches f lg) (log_cids db))
           \<or> (byHashes f txHashes \<and> r_tx_id r \<in> set txHashes))"

definition selectedByOwnLogs :: "eth_db \<Rightarrow> ReceiptFilter \<Rightarrow> string list \<Rightarrow> receipt_model \<Rightarrow> bool" where
  "selectedByOwnLogs db f txHashes r =
     (if \<not> byLogs f \<and> \<not> byHashes f txHashes then True
      else (byLogs f \<and> list_ex (logMatches f) (logsOfReceipt db r))
           \<or> (byHashes f txHashes \<and> r_tx_id r \<in> set txHashes))"

section \<open>Retrieve (pkg/eth/cid\_retriever.go)\<close>

text \<open>
  \<open>Retrieve\<close> opens a transaction and passes it to the retrieval methods of the
  retriever. Each of these sends one statement to the database with \<open>tx.Select\<close>: it
  yields rows, fails with an error, or panics. A panic is raised either inside the query
  call of \<open>database/sql\<close> (in the driver), or once that call has returned, for instance
  while the rows are scanned. What each method replies is a parameter, the record
  \<open>tx_steps\<close>, with \<open>Beginx\<close> the error of \<open>db.Beginx()\<close>, if any.
\<close>

datatype 'a reply = Rows 'a | Fails error | Panicking string | PanickingInDriver string

text \<open>
  What happens to the transaction is recorded as a list of events: its begin, each
  retrieval method called, with its arguments and what it replied, and the rollback or
  commit of the transaction.
\<close>

datatype query_result = QueryOk | QueryFailed error | QueryPanicked string | QueryPanickedInDriver string

datatype query_call =
    CallHeaderCIDs int
  | CallUncleCIDsByHeaderID string
  | CallTxCIDs TxFilter string
  | CallRctCIDs ReceiptFilter int string "string list"
  | CallStateCIDs StateFilter string
  | CallStorageCIDs StorageFilter string

datatype tx_event = TxBegin | TxQuery query_call query_result | TxRollback | TxCommit

record tx_steps =
  Beginx :: "error option"
  q_HeaderCIDs :: "int \<Rightarrow> header_model list reply"
  q_UncleCIDsByHeaderID :: "string \<Rightarrow> uncle_model list reply"
  q_TxCIDs :: "TxFilter \<Rightarrow> string \<Rightarrow> tx_model list reply"
  q_RctCIDs :: "ReceiptFilter \<Rightarrow> int \<Rightarrow> string \<Rightarrow> string list \<Rightarrow> receipt_model list reply"
  q_StateCIDs :: "StateFilter \<Rightarrow> string \<Rightarrow> state_node_model list reply"
  q_StorageCIDs :: "StorageFilter \<Rightarrow> string \<Rightarrow> storage_node_model list reply"

text \<open>
  A computation inside the transaction gives a reply and the calls it has made.
  \<open>andThen\<close> goes on with the rows of a statement, and stops at the first error or
  panic: every error branch of \<open>Retrieve\<close> is
  \<^verbatim>\<open>if err != nil { return nil, true, err }\<close>.
\<close>

type_synonym 'a in_tx = "'a reply \<times> tx_event list"

fun resultOf :: "'a reply \<Rightarrow> query_result" where
  "resultOf (Rows x) = QueryOk"
| "resultOf (Fails err) = QueryFailed err"
| "resultOf (Panicking p) = QueryPanicked p"
| "resultOf (PanickingInDriver p) = QueryPanickedInDriver p"

definition query :: "query_call \<Rightarrow> 'a reply \<Rightarrow> 'a in_tx" where
  "query c r = (r, [TxQuery c (resultOf r)])"

definition proceed :: "'a \<Rightarrow> 'a in_tx" where
  "proceed x = (Rows x, [])"

definition andThen :: "'a in_tx \<Rightarrow> ('a \<Rightarrow> 'b in_tx) \<Rightarrow> 'b in_tx" where
  "andThen m f =
     (case m of
        (Rows x, l) \<Rightarrow> (case f x of (r, l') \<Rightarrow> (r, l @ l'))
      | (Fails err, l) \<Rightarrow> (Fails err, l)
      | (Panicking p, l) \<Rightarrow> (Panicking p, l)
      | (PanickingInDriver p, l) \<Rightarrow> (PanickingInDriver p, l))"

definition newCIDWrapper :: "int \<Rightarrow> CIDWrapper" where
  "newCIDWrapper blockNumber =
     \<lparr>cw_BlockNumber = blockNumber, cw_Header = None, cw_Uncles = [], cw_Transactions = [],
      cw_Receipts = [], cw_StateNodes = [], cw_StorageNodes = []\<rparr>"

text \<open>
  The body of the loop over the headers at the block height, block by block as the code has
  it: the header with its uncles, then the transactions, the receipts, the state nodes and
  the storage nodes. Each block is skipped when its filter is off. \<open>noData\<close> is the
  variable \<open>empty\<close> of the code, which starts as true before the loop.
\<close>

definition withHeader ::
  "tx_steps \<Rightarrow> SubscriptionSettings \<Rightarrow> int \<Rightarrow> header_model \<Rightarrow> bool \<Rightarrow> (CIDWrapper \<times> bool) in_tx" where
  "withHeader st settings blockNumber header noData =
     (if \<not> hf_Off (HeaderFilter settings) then
        (if hf_Uncles (HeaderFilter settings) then
           andThen (query (CallUncleCIDsByHeaderID (h_block_hash header))
                      (q_UncleCIDsByHeaderID st (h_block_hash header)))
             (\<lambda>uncleCIDs. proceed
                ((newCIDWrapper blockNumber)\<lparr>cw_Header := Some header, cw_Uncles := uncleCIDs\<rparr>, False))
         else proceed ((newCIDWrapper blockNumber)\<lparr>cw_Header := Some header\<rparr>, False))
      else proceed (newCIDWrapper blockNumber, noData))"

definition withTransactions ::
  "tx_steps \<Rightarrow> SubscriptionSettings \<Rightarrow> header_model \<Rightarrow> CIDWrapper \<times> bool \<Rightarrow> (CIDWrapper \<times> bool) in_tx" where
  "withTransactions st settings header x =
     (case x of (cw, noData) \<Rightarrow>
        if \<not> xf_Off (TxFilter settings) then
          andThen (query (CallTxCIDs (TxFilter settings) (h_block_hash header))
                     (q_TxCIDs st (TxFilter settings) (h_block_hash header)))
            (\<lambda>txs. proceed (cw\<lparr>cw_Transactions := txs\<rparr>, if length txs > 0 then False else noData))
        else proceed (cw, noData))"

definition withReceipts ::
  "tx_steps \<Rightarrow> SubscriptionSettings \<Rightarrow> header_model \<Rightarrow> CIDWrapper \<times> bool \<Rightarrow> (CIDWrapper \<times> bool) in_tx" where
  "withReceipts st settings header x =
     (case x of (cw, noData) \<Rightarrow>
        let trxHashes = map x_tx_hash (cw_Transactions cw) in
        if \<not> rf_Off (ReceiptFilter settings) then
          andThen (query (CallRctCIDs (ReceiptFilter settings) 0 (h_block_hash header) trxHashes)
                     (q_RctCIDs st (ReceiptFilter settings) 0 (h_block_hash header) trxHashes))
            (\<lambda>rcts. proceed (cw\<lparr>cw_Receipts := rcts\<rparr>, if length rcts > 0 then False else noData))
        else proceed (cw, noData))"

definition withStateNodes ::
  "tx_steps \<Rightarrow> SubscriptionSettings \<Rightarrow> header_model \<Rightarrow> CIDWrapper \<times> bool \<Rightarrow> (CIDWrapper \<times> bool) in_tx" where
  "withStateNodes st settings header x =
     (case x of (cw, noData) \<Rightarrow>
        if \<not> sf_Off (StateFilter settings) then
          andThen (query (CallStateCIDs (StateFilter settings) (h_block_hash header))
                     (q_StateCIDs st (StateFilter settings) (h_block_hash header)))
            (\<lambda>nodes. proceed (cw\<lparr>cw_StateNodes := nodes\<rparr>, if length nodes > 0 then False else noData))
        else proceed (cw, noData))"

definition withStorageNodes ::
  "tx_steps \<Rightarrow> SubscriptionSettings \<Rightarrow> header_model \<Rightarrow> CIDWrapper \<times> bool \<Rightarrow> (CIDWrapper \<times> bool) in_tx" where
  "withStorageNodes st settings header x =
     (case x of (cw, noData) \<Rightarrow>
        if \<not> gf_Off (StorageFilter settings) then
          andThen (query (CallStorageCIDs (StorageFilter settings) (h_block_hash header))
                     (q_StorageCIDs st (StorageFilter settings) (h_block_hash header)))
            (\<lambda>nodes. proceed (cw\<lparr>cw_StorageNodes := nodes\<rparr>, if length nodes > 0 then False else noData))
        else proceed (cw, noData))"

definition retrieveForHeader ::
  "tx_steps \<Rightarrow> SubscriptionSettings \<Rightarrow> int \<Rightarrow> header_model \<Rightarrow> bool \<Rightarrow> (CIDWrapper \<times> bool) in_tx" where
  "retrieveForHeader st settings blockNumber header noData =
     andThen (withHeader st settings blockNumber header noData)
       (\<lambda>x1. andThen (withTransactions st settings header x1)
       (\<lambda>x2. andThen (withReceipts st settings header x2)
       (\<lambda>x3. andThen (withStateNodes st settings header x3)
       (\<lambda>x4. withStorageNodes st settings header x4))))"

fun retrieveLoop ::
  "tx_steps \<Rightarrow> SubscriptionSettings \<Rightarrow> int \<Rightarrow> header_model list \<Rightarrow> bool \<Rightarrow> (CIDWrapper list \<times> bool) in_tx" where
  "retrieveLoop st settings blockNumber [] noData = proceed ([], noData)"
| "retrieveLoop st settings blockNumber (header # headers) noData =
     andThen (retrieveForHeader st settings blockNumber header noData)
       (\<lambda>(cw, noData'). andThen (retrieveLoop st settings blockNumber headers noData')
          (\<lambda>(cws, noData''). proceed (cw # cws, noData'')))"

text \<open>
  \<open>Retrieve\<close> with its deferred function: after a panic it calls
  \<open>shared.Rollback(tx)\<close> and panics again; when the variable \<open>err\<close> is not nil it rolls
  back; otherwise it commits. The result of \<open>tx.Commit()\<close> is assigned to \<open>err\<close>
  after the results of the function are set, so it is not returned. When
  \<open>Beginx\<close> fails there is no transaction and nothing is deferred.

  \<open>tx.Rollback()\<close> of \<open>database/sql\<close> first waits for the lock \<open>closemu\<close> of the
  transaction. A query call holds this lock for reading and releases it when it returns an
  error or when its rows are closed (\<open>tx.Select\<close> closes them in a deferred call). A panic
  raised inside the query call leaves the lock held: the rollback of the deferred function
  then waits forever, no \<open>ROLLBACK\<close> is sent and \<open>Retrieve\<close> neither returns nor panics.
  The outcome is then \<open>None\<close>.
\<close>

text \<open>
  Modelled from the spec: \<open>shared.Rollback\<close> is called by the code but declared in a file
  that is not among the sources. The spec has the transaction rolled back on a panic and on
  any returned error; \<open>shared.Rollback(tx)\<close> is taken to call \<open>tx.Rollback()\<close>.
\<close>

definition Retrieve ::
  "tx_steps \<Rightarrow> SubscriptionSettings \<Rightarrow> int
     \<Rightarrow> (CIDWrapper list \<times> bool \<times> error option) outcome option \<times> tx_event list" where
  "Retrieve st settings blockNumber =
     (case Beginx st of
        Some err \<Rightarrow> (Some (Returns ([], True, Some err)), [])
      | None \<Rightarrow>
          (case andThen (query (CallHeaderCIDs blockNumber) (q_HeaderCIDs st blockNumber))
                  (\<lambda>headers. retrieveLoop st settings blockNumber headers True) of
             (PanickingInDriver p, l) \<Rightarrow> (None, TxBegin # l)
           | (Panicking p, l) \<Rightarrow> (Some (Panics p), TxBegin # l @ [TxRollback])
           | (Fails err, l) \<Rightarrow> (Some (Returns ([], True, Some err)), TxBegin # l @ [TxRollback])
           | (Rows (cws, noData), l) \<Rightarrow> (Some (Returns (cws, noData, None)), TxBegin # l @ [TxCommit])))"

text \<open>What a retrieval method of \<open>st\<close> replies to a call.\<close>

fun replyTo :: "tx_steps \<Rightarrow> query_call \<Rightarrow> query_result" where
  "replyTo st (CallHeaderCIDs n) = resultOf (q_HeaderCIDs st n)"
| "replyTo st (CallUncleCIDsByHeaderID h) = resultOf (q_UncleCIDsByHeaderID st h)"
| "replyTo st (CallTxCIDs f h) = resultOf (q_TxCIDs st f h)"
| "replyTo st (CallRctCIDs f n h txs) = resultOf (q_RctCIDs st f n h txs)"
| "replyTo st (CallStateCIDs f h) = resultOf (q_StateCIDs st f h)"
| "replyTo st (CallStorageCIDs f h) = resultOf (q_StorageCIDs st f h)"

text \<open>
  An event that records a call with the reply of \<open>st\<close> to it, and one that records rows.
\<close>

fun isReplyOf :: "tx_steps \<Rightarrow> tx_event \<Rightarrow> bool" where
  "isReplyOf st (TxQuery c res) = (res = replyTo st c)"
| "isReplyOf st e = False"

fun isOkQuery :: "tx_event \<Rightarrow> bool" where
  "isOkQuery (TxQuery c QueryOk) = True"
| "isOkQuery e = False"

text \<open>
  The log of a computation inside the transaction: every event records a call with the reply
  of \<open>st\<close> to it; all calls have yielded rows, but the last one when the computation does
  not, whose reply is then that of the computation.
\<close>

fun isQueryWith :: "query_result \<Rightarrow> tx_event \<Rightarrow> bool" where
  "isQueryWith res (TxQuery c res') = (res' = res)"
| "isQueryWith res e = False"

definition logged :: "tx_steps \<Rightarrow> 'a in_tx \<Rightarrow> bool" where
  "logged st m =
     (case m of (r, l) \<Rightarrow>
        list_all (isReplyOf st) l
        \<and> (case r of
             Rows x \<Rightarrow> list_all isOkQuery l
           | _ \<Rightarrow> l \<noteq> [] \<and> list_all isOkQuery (butlast l) \<and> isQueryWith (resultOf r) (last l)))"


subsection \<open>Example data\<close>

definition uncleA :: uncle_model where
  "uncleA = \<lparr>u_block_number = 7, u_header_id = ''0xh7'', u_block_hash = ''0xu1'',
     u_parent_hash = ''0xbb'', u_cid = ''cidA'', u_mh_key = ''keyA'', u_reward = ''1''\<rparr>"

definition uncleB :: uncle_model where
  "uncleB = \<lparr>u_block_number = 7, u_header_id = ''0xh7'', u_block_hash = ''0xu2'',
     u_parent_hash = ''0xaa'', u_cid = ''cidB'', u_mh_key = ''keyB'', u_reward = ''1''\<rparr>"

definition uncleC :: uncle_model where
  "uncleC = \<lparr>u_block_number = 8, u_header_id = ''0xh8'', u_block_hash = ''0xu3'',
     u_parent_hash = ''0xcc'', u_cid = ''cidC'', u_mh_key = ''keyC'', u_reward = ''1''\<rparr>"

definition uncleDb :: eth_db where
  "uncleDb = \<lparr>header_cids = [], uncle_cids = [uncleA, uncleC, uncleB], transaction_cids = [],
     receipt_cids = [], log_cids = [], blocks = [],
     canonical_header_hash = (\<lambda>n. None), db_fault = None\<rparr>"

text \<open>
  A transaction included in two sibling blocks at height 5, of which \<open>0xh5a\<close> is
  canonical, and a transaction that two canonical blocks hold.
\<close>

definition txCanon :: transaction_cid_row where
  "txCanon = \<lparr>t_cid = ''cidT1'', t_tx_hash = ''0xt1'', t_block_number = 5, t_header_id = ''0xh5a'',
     t_index = 0, t_src = ''0xs'', t_dst = ''0xd'', t_mh_key = ''keyT1''\<rparr>"

definition txSibling :: transaction_cid_row where
  "txSibling = \<lparr>t_cid = ''cidT1'', t_tx_hash = ''0xt1'', t_block_number = 5, t_header_id = ''0xh5b'',
     t_index = 3, t_src = ''0xs'', t_dst = ''0xd'', t_mh_key = ''keyT1''\<rparr>"

definition txTwiceA :: transaction_cid_row where
  "txTwiceA = \<lparr>t_cid = ''cidT2'', t_tx_hash = ''0xt2'', t_block_number = 5, t_header_id = ''0xh5a'',
     t_index = 1, t_src = ''0xs'', t_dst = ''0xd'', t_mh_key = ''keyT2''\<rparr>"

definition txTwiceB :: transaction_cid_row where
  "txTwiceB = \<lparr>t_cid = ''cidT2'', t_tx_hash = ''0xt2'', t_block_number = 6, t_header_id = ''0xh6'',
     t_index = 0, t_src = ''0xs'', t_dst = ''0xd'', t_mh_key = ''keyT2''\<rparr>"

definition ipldT1 :: ipld_model where
  "ipldT1 = \<lparr>i_key = ''keyT1'', i_block_number = 5, i_data = [1, 2, 3]\<rparr>"

definition txDb :: eth_db where
  "txDb = \<lparr>header_cids = [], uncle_cids = [],
     transaction_cids = [txSibling, txCanon, txTwiceA, txTwiceB],
     receipt_cids = [], log_cids = [], blocks = [ipldT1],
     canonical_header_hash = (\<lambda>n. if n = 5 then Some ''0xh5a'' else if n = 6 then Some ''0xh6'' else None),
     db_fault = None\<rparr>"

text \<open>
  An index holding the blocks 0 to 10, settings with every filter off, and one
  subscription.
\<close>

definition backfillCollab :: "(unit, unit) collaborators" where
  "backfillCollab = \<lparr>RetrieveFirstBlockNumber = Inr 0, RetrieveLastBlockNumber = Inr 10,
     RetrieveAt = (\<lambda>p i. ([], True, None)), Fetch = (\<lambda>cw. Inr ()), Filter = (\<lambda>p x. Inr ()),
     EncodeSettings = (\<lambda>p. Inr []), EncodeResponse = (\<lambda>r. Inr []), Keccak256Hash = (\<lambda>b. ''0xtype''),
     responseBlockNumber = (\<lambda>r. 0), payloadBlockNumber = (\<lambda>p. 0)\<rparr>"

definition allOff :: "int \<Rightarrow> int \<Rightarrow> SubscriptionSettings" where
  "allOff a b = \<lparr>BackFill = True, BackFillOnly = False, Start = a, End = b,
     HeaderFilter = \<lparr>hf_Off = True, hf_Uncles = False\<rparr>,
     TxFilter = \<lparr>xf_Off = True, xf_Src = [], xf_Dst = []\<rparr>,
     ReceiptFilter = \<lparr>rf_Off = True, rf_MatchTxs = False, rf_LogAddresses = [], rf_Topics = []\<rparr>,
     StateFilter = \<lparr>sf_Off = True, sf_Addresses = [], sf_IntermediateNodes = False\<rparr>,
     StorageFilter = \<lparr>gf_Off = True, gf_Addresses = [], gf_StorageKeys = [], gf_IntermediateNodes = False\<rparr>\<rparr>"


text \<open>
  The invariant of the service: the two maps have the same keys, and the
  missing-configuration entry has not been logged.
\<close>

definition consistent :: "Service \<Rightarrow> bool" where
  "consistent s = (subscriptionKeys s = typeKeys s \<and> \<not> missingConfigLogged s)"

text \<open>
  A bucket is settled for a subscription id when it is gone, or holds another
  subscription and not this one: \<open>Unsubscribe\<close> of that id leaves it as it is.
\<close>

definition settled :: "rpc_id \<Rightarrow> Service \<Rightarrow> hash \<Rightarrow> bool" where
  "settled sid s ty =
     (case map_of (Subscriptions s) ty of
        None \<Rightarrow> True
      | Some subs \<Rightarrow> sid \<notin> fst ` set subs \<and> subs \<noteq> [])"

text \<open>A started service with one live subscription.\<close>

definition liveCalls :: "unit call list" where
  "liveCalls = [CallStart, CallSubscribe ''sub1'' 1 2 ((allOff 0 0)\<lparr>BackFill := False\<rparr>)]"

text \<open>
  A retriever whose transaction statement fails, at a block with one header, under
  settings that ask for headers and transactions.
\<close>

definition headerSeven :: header_model where
  "headerSeven = \<lparr>h_block_number = 7, h_block_hash = ''0xh7'', h_parent_hash = ''0xh6'',
     h_cid = ''cidH7'', h_mh_key = ''keyH7'', h_td = ''7''\<rparr>"

definition headersAndTxs :: SubscriptionSettings where
  "headersAndTxs = (allOff 0 0)\<lparr>HeaderFilter := \<lparr>hf_Off = False, hf_Uncles = False\<rparr>,
     TxFilter := \<lparr>xf_Off = False, xf_Src = [], xf_Dst = []\<rparr>\<rparr>"

definition failingTxs :: tx_steps where
  "failingTxs = \<lparr>Beginx = None, q_HeaderCIDs = (\<lambda>n. Rows [headerSeven]),
     q_UncleCIDsByHeaderID = (\<lambda>h. Rows []),
     q_TxCIDs = (\<lambda>f h. Fails (DriverError ''connection reset'')),
     q_RctCIDs = (\<lambda>f n h txs. Rows []), q_StateCIDs = (\<lambda>f h. Rows []),
     q_StorageCIDs = (\<lambda>f h. Rows [])\<rparr>"

text \<open>
  Retrieval methods that all yield rows, and the same with a header query that panics inside
  the driver.
\<close>

definition txSeven :: tx_model where
  "txSeven = \<lparr>x_block_number = 7, x_tx_hash = ''0xt7'', x_header_id = ''0xh7'',
     x_cid = ''cidT7'', x_mh_key = ''keyT7'', x_dst = ''0xd'', x_src = ''0xs'', x_index = 0\<rparr>"

definition yieldingRows :: tx_steps where
  "yieldingRows = \<lparr>Beginx = None, q_HeaderCIDs = (\<lambda>n. Rows [headerSeven]),
     q_UncleCIDsByHeaderID = (\<lambda>h. Rows []),
     q_TxCIDs = (\<lambda>f h. Rows [txSeven]),
     q_RctCIDs = (\<lambda>f n h txs. Rows []), q_StateCIDs = (\<lambda>f h. Rows []),
     q_StorageCIDs = (\<lambda>f h. Rows [])\<rparr>"


text \<open>
  A transaction included in two sibling blocks at height 5. In block \<open>0xhB\<close> it
  emitted a log at address \<open>0xY\<close>; in block \<open>0xhA\<close> it emitted none.
\<close>

definition hdrA :: header_cid_row where "hdrA = \<lparr>hc_block_hash = ''0xhA'', hc_block_number = 5\<rparr>"
definition hdrB :: header_cid_row where "hdrB = \<lparr>hc_block_hash = ''0xhB'', hc_block_number = 5\<rparr>"

definition txInA :: transaction_cid_row where
  "txInA = \<lparr>t_cid = ''cidT'', t_tx_hash = ''0xt'', t_block_number = 5, t_header_id = ''0xhA'',
     t_index = 0, t_src = ''0xs'', t_dst = ''0xd'', t_mh_key = ''keyT''\<rparr>"

definition txInB :: transaction_cid_row where
  "txInB = \<lparr>t_cid = ''cidT'', t_tx_hash = ''0xt'', t_block_number = 5, t_header_id = ''0xhB'',
     t_index = 0, t_src = ''0xs'', t_dst = ''0xd'', t_mh_key = ''keyT''\<rparr>"

definition rctInA :: receipt_model where
  "rctInA = \<lparr>r_block_number = 5, r_header_id = ''0xhA'', r_tx_id = ''0xt'', r_leaf_cid = ''cidRA'',
     r_leaf_mh_key = ''keyRA'', r_contract = [], r_contract_hash = []\<rparr>"

definition rctInB :: receipt_model where
  "rctInB = \<lparr>r_block_number = 5, r_header_id = ''0xhB'', r_tx_id = ''0xt'', r_leaf_cid = ''cidRB'',
     r_leaf_mh_key = ''keyRB'', r_contract = [], r_contract_hash = []\<rparr>"

definition logInB :: log_cid_row where
  "logInB = \<lparr>l_block_number = 5, l_header_id = ''0xhB'', l_rct_id = ''0xt'', l_index = 0,
     l_address = ''0xY'', l_topic0 = Some ''0x04'', l_topic1 = None, l_topic2 = None, l_topic3 = None\<rparr>"

definition forkDb :: eth_db where
  "forkDb = \<lparr>header_cids = [hdrA, hdrB], uncle_cids = [], transaction_cids = [txInA, txInB],
     receipt_cids = [rctInA, rctInB], log_cids = [logInB], blocks = [],
     canonical_header_hash = (\<lambda>n. if n = 5 then Some ''0xhA'' else None), db_fault = None\<rparr>"

definition addressY :: ReceiptFilter where
  "addressY = \<lparr>rf_Off = False, rf_MatchTxs = False, rf_LogAddresses = [''0xY''], rf_Topics = []\<rparr>"

text \<open>
  A decoder that agrees with RLP on the two inputs of the examples (the empty input, and
  the list of the byte strings \<open>01\<close> and \<open>02\<close>), and a stand-in for Keccak-256.
\<close>

definition sampleDecode :: rlp_decoder where
  "sampleDecode bs =
     (if bs = [] then Inl (OtherError ''EOF'')
      else if bs = [0xC2, 0x01, 0x02] then Inr (RlpList [RlpBytes [0x01], RlpBytes [0x02]])
      else Inl (OtherError ''not a sample input''))"

definition sampleKeccak :: "address \<Rightarrow> string" where
  "sampleKeccak a = ''keccak:'' @ a"

text \<open>
  A contract with one storage slot, written at block 1. At block 2 the contract is
  destroyed: a removed row is recorded on the path of the slot.
\<close>

definition headerOne :: pg_header_cid where
  "headerOne = \<lparr>ph_id = 1, ph_block_number = 1, ph_block_hash = ''0xh1''\<rparr>"

definition headerTwo :: pg_header_cid where
  "headerTwo = \<lparr>ph_id = 2, ph_block_number = 2, ph_block_hash = ''0xh2''\<rparr>"

definition contractState :: pg_state_cid where
  "contractState = \<lparr>ps_id = 10, ps_header_id = 1, ps_state_leaf_key = ''keccak:0xc'',
     ps_cid = ''cidS1'', ps_mh_key = ''keyS1'', ps_node_type = 2\<rparr>"

definition removedState :: pg_state_cid where
  "removedState = \<lparr>ps_id = 20, ps_header_id = 2, ps_state_leaf_key = ''keccak:0xc'',
     ps_cid = ''cidRemoved'', ps_mh_key = ''keyRemoved'', ps_node_type = 3\<rparr>"

definition slotLeaf :: pg_storage_cid where
  "slotLeaf = \<lparr>pg_id = 100, pg_state_id = 10, pg_storage_leaf_key = ''0xslot'',
     pg_cid = ''cidG1'', pg_mh_key = ''keyG1'', pg_storage_path = [0x05], pg_node_type = 2\<rparr>"

definition slotRemoved :: pg_storage_cid where
  "slotRemoved = \<lparr>pg_id = 200, pg_state_id = 20, pg_storage_leaf_key = [],
     pg_cid = ''cidRemoved'', pg_mh_key = ''keyRemoved'', pg_storage_path = [0x05], pg_node_type = 3\<rparr>"

definition selfDestructDb :: postgres_db where
  "selfDestructDb =
     \<lparr>pg_header_cids = [headerOne, headerTwo],
      pg_state_cids = [contractState, removedState],
      pg_storage_cids = [slotLeaf, slotRemoved],
      pg_blocks = [\<lparr>pb_key = ''keyS1'', pb_data = [0xC2, 0x01, 0x02]\<rparr>,
                   \<lparr>pb_key = ''keyG1'', pb_data = [0xC2, 0x01, 0x02]\<rparr>,
                   \<lparr>pb_key = ''keyRemoved'', pb_data = []\<rparr>],
      canonical_header = (\<lambda>n. if n = 1 then Some 1 else if n = 2 then Some 2 else None),
      pg_fault = None\<rparr>"

text \<open>
  The same account in an index without storage rows: a leaf at block 1, and a removed
  row (\<open>node_type = 3\<close>) at block 2 whose IPLD block is empty.
\<close>

definition removedAccountDb :: postgres_db where
  "removedAccountDb =
     \<lparr>pg_header_cids = [headerOne, headerTwo],
      pg_state_cids = [contractState, removedState],
      pg_storage_cids = [],
      pg_blocks = [\<lparr>pb_key = ''keyS1'', pb_data = [0xC2, 0x01, 0x02]\<rparr>,
                   \<lparr>pb_key = ''keyRemoved'', pb_data = []\<rparr>],
      canonical_header = (\<lambda>n. if n = 1 then Some 1 else if n = 2 then Some 2 else None),
      pg_fault = None\<rparr>"

section \<open>Properties of the CID retriever\<close>

subsection \<open>C9: uncles of a header\<close>

text \<open>
  C9 says that the uncle records come back ordered by \<open>parent_hash\<close> and then by
  index. A list ordered by the pair (parent hash, index) is in particular ordered by
  parent hash. The statement of the code has no \<open>ORDER BY\<close>, so the rows come in scan
  order: with two uncles of header \<open>0xh7\<close> stored with parent hashes \<open>0xbb\<close> then
  \<open>0xaa\<close>, the result is not ordered by parent hash.
\<close>

theorem C9_uncles_not_ordered_counterexample:
  "RetrieveUncleCIDsByHeaderID uncleDb ''0xh7'' = Inr [uncleA, uncleB]
   \<and> \<not> sorted (map u_parent_hash [uncleA, uncleB])"
  by (simp add: RetrieveUncleCIDsByHeaderID_def uncleDb_def uncleA_def uncleB_def uncleC_def)

text \<open>
  C9 (amended): on a healthy connection, for every header id the operation returns
  exactly the uncle rows of that header: every row of the table whose \<open>header_id\<close>
  is the argument, as often as the table holds it, and no other row, in the order in
  which they are stored (a subsequence of the table). No ordering is imposed.
\<close>

theorem C9_uncles_of_header:
  assumes "db_fault db = None"
  shows "\<exists>us. RetrieveUncleCIDsByHeaderID db headerID = Inr us
          \<and> set us = {u \<in> set (uncle_cids db). u_header_id u = headerID}
          \<and> mset us = filter_mset (\<lambda>u. u_header_id u = headerID) (mset (uncle_cids db))
          \<and> subseq us (uncle_cids db)"
  using assms by (simp add: RetrieveUncleCIDsByHeaderID_def)

theorem C9_uncles_of_header_witness:
  "db_fault uncleDb = None
   \<and> (\<exists>us. RetrieveUncleCIDsByHeaderID uncleDb ''0xh8'' = Inr us
          \<and> set us = {u \<in> set (uncle_cids uncleDb). u_header_id u = ''0xh8''}
          \<and> mset us = filter_mset (\<lambda>u. u_header_id u = ''0xh8'') (mset (uncle_cids uncleDb))
          \<and> subseq us (uncle_cids uncleDb))"
proof -
  have h: "db_fault uncleDb = None" by (simp add: uncleDb_def)
  show ?thesis using h C9_uncles_of_header [OF h, of "''0xh8''"] by simp
qed

subsection \<open>C8: a transaction by its hash\<close>

lemma Int64_in_range: "- (2 ^ 63) \<le> n \<Longrightarrow> n < 2 ^ 63 \<Longrightarrow> Int64 n = n"
  by (simp add: Int64_def)

lemma joinIPLD_cases:
  "joinIPLD db t =
     (case filter (\<lambda>b. i_key b = t_mh_key t \<and> i_block_number b = t_block_number t) (blocks db) of
        [] \<Rightarrow> [(t, None)]
      | bs \<Rightarrow> map (\<lambda>b. (t, Some b)) bs)"
  by (simp add: joinIPLD_def)

lemma joinIPLD_nonempty: "joinIPLD db t \<noteq> []"
  by (simp add: joinIPLD_def split: list.splits)

lemma joined_two:
  "\<exists>r r' rs. concat (map (joinIPLD db) (t # t' # ts)) = r # r' # rs"
proof -
  obtain a as where a: "joinIPLD db t = a # as"
    using joinIPLD_nonempty [of db t] by (cases "joinIPLD db t") auto
  obtain b bs where b: "joinIPLD db t' = b # bs"
    using joinIPLD_nonempty [of db t'] by (cases "joinIPLD db t'") auto
  show ?thesis
    by (cases as) (simp_all add: a b)
qed

text \<open>
  C8: on a healthy connection, let the matching rows be the transaction rows of the index
  with the given hash whose \<open>header_id\<close> is the canonical header hash the index gives for the
  row's block number (and whose block number is the \<open>Int64()\<close> of the given one, when one is
  given), each with its IPLD block. \<open>RetrieveTxCIDByHash\<close> returns \<open>errTxHashNotFound\<close> exactly
  when no transaction row matches, \<open>errTxHashInMultipleBlocks\<close> exactly when more than one row
  matches (several transaction rows, or one with several IPLD blocks), and a record exactly when
  one row matches: that row, with its IPLD block if it has one. A record returned is a row of
  the index with the given hash and the canonical header of its block.
\<close>

theorem C8_tx_by_hash_canonical:
  assumes "db_fault db = None"
  shows "let matching = filter (\<lambda>t. t_tx_hash t = txHash
                 \<and> canonical_header_hash db (t_block_number t) = Some (t_header_id t)
                 \<and> (case blockNumber of None \<Rightarrow> True | Some n \<Rightarrow> t_block_number t = Int64 n))
               (transaction_cids db);
             iplds = (\<lambda>t. filter (\<lambda>b. i_key b = t_mh_key t \<and> i_block_number b = t_block_number t)
               (blocks db))
         in (RetrieveTxCIDByHash db txHash blockNumber = Inl errTxHashNotFound
               \<longleftrightarrow> matching = [])
          \<and> (RetrieveTxCIDByHash db txHash blockNumber = Inl errTxHashInMultipleBlocks
               \<longleftrightarrow> 1 < length matching \<or> (\<exists>t. matching = [t] \<and> 1 < length (iplds t)))
          \<and> (\<forall>r. RetrieveTxCIDByHash db txHash blockNumber = Inr r
               \<longleftrightarrow> (\<exists>t. matching = [t]
                      \<and> (iplds t = [] \<and> r = (t, None) \<or> (\<exists>b. iplds t = [b] \<and> r = (t, Some b)))))
          \<and> (\<forall>t i. RetrieveTxCIDByHash db txHash blockNumber = Inr (t, i)
               \<longrightarrow> t \<in> set (transaction_cids db) \<and> t_tx_hash t = txHash
                   \<and> canonical_header_hash db (t_block_number t) = Some (t_header_id t))"
proof -
  define P where "P = (\<lambda>t :: transaction_cid_row. t_tx_hash t = txHash
                 \<and> canonical_header_hash db (t_block_number t) = Some (t_header_id t)
                 \<and> (case blockNumber of None \<Rightarrow> True | Some n \<Rightarrow> t_block_number t = Int64 n))"
  define matching where "matching = filter P (transaction_cids db)"
  define iplds where "iplds = (\<lambda>t :: transaction_cid_row. filter (\<lambda>b. i_key b = t_mh_key t \<and> i_block_number b = t_block_number t)
               (blocks db))"
  define R where "R = RetrieveTxCIDByHash db txHash blockNumber"
  have join: "\<And>t. joinIPLD db t = (case iplds t of [] \<Rightarrow> [(t, None)] | bs \<Rightarrow> map (\<lambda>b. (t, Some b)) bs)"
    by (simp add: joinIPLD_def iplds_def)
  have cond: "txCanonicalCond db txHash blockNumber = P"
    by (rule ext) (simp add: txCanonicalCond_def P_def)
  have result: "R = (case concat (map (joinIPLD db) matching) of
                        [] \<Rightarrow> Inl errTxHashNotFound | [r] \<Rightarrow> Inr r
                      | _ \<Rightarrow> Inl errTxHashInMultipleBlocks)"
    using assms by (simp add: R_def RetrieveTxCIDByHash_def findTxCIDs_def cond matching_def)
  have member: "\<And>t. t \<in> set matching \<Longrightarrow> t \<in> set (transaction_cids db) \<and> t_tx_hash t = txHash
                  \<and> canonical_header_hash db (t_block_number t) = Some (t_header_id t)"
    by (simp add: matching_def P_def)
  have main: "(R = Inl errTxHashNotFound \<longleftrightarrow> matching = [])
      \<and> (R = Inl errTxHashInMultipleBlocks
           \<longleftrightarrow> 1 < length matching \<or> (\<exists>t. matching = [t] \<and> 1 < length (iplds t)))
      \<and> (\<forall>r. R = Inr r
           \<longleftrightarrow> (\<exists>t. matching = [t]
                  \<and> (iplds t = [] \<and> r = (t, None) \<or> (\<exists>b. iplds t = [b] \<and> r = (t, Some b)))))
      \<and> (\<forall>t i. R = Inr (t, i) \<longrightarrow> t \<in> set (transaction_cids db) \<and> t_tx_hash t = txHash
               \<and> canonical_header_hash db (t_block_number t) = Some (t_header_id t))"
  proof (cases matching)
    case Nil
    then have "R = Inl errTxHashNotFound" by (simp add: result)
    then show ?thesis using Nil by simp
  next
    case (Cons t ts)
    note outer = Cons
    show ?thesis
    proof (cases ts)
      case Nil
      have one: "matching = [t]" using outer Nil by simp
      have m: "t \<in> set (transaction_cids db) \<and> t_tx_hash t = txHash
                  \<and> canonical_header_hash db (t_block_number t) = Some (t_header_id t)"
        by (rule member) (simp add: one)
      show ?thesis
      proof (cases "iplds t")
        case Nil
        then have r: "R = Inr (t, None)" by (simp add: result one join)
        show ?thesis unfolding r one using Nil m by auto
      next
        case (Cons b bs)
        note blocks = Cons
        show ?thesis
        proof (cases bs)
          case Nil
          then have r: "R = Inr (t, Some b)" using blocks by (simp add: result one join)
          show ?thesis unfolding r one using blocks Nil m by auto
        next
          case (Cons b' bs')
          then have r: "R = Inl errTxHashInMultipleBlocks"
            using blocks by (simp add: result one join)
          show ?thesis unfolding r one using blocks Cons by simp
        qed
      qed
    next
      case (Cons t' ts')
      obtain r r' rs where "concat (map (joinIPLD db) (t # t' # ts')) = r # r' # rs"
        using joined_two by blast
      then have r: "R = Inl errTxHashInMultipleBlocks"
        using outer Cons by (simp add: result)
      show ?thesis unfolding r using outer Cons by simp
    qed
  qed
  show ?thesis
    unfolding Let_def by (rule main [unfolded R_def matching_def iplds_def P_def])
qed

lemma RetrieveTxCIDByHash_txDb_t1:
  "RetrieveTxCIDByHash txDb ''0xt1'' (Some 5) = Inr (txCanon, Some ipldT1)"
  by (simp add: RetrieveTxCIDByHash_def findTxCIDs_def joinIPLD_def txCanonicalCond_def txDb_def
      txCanon_def txSibling_def txTwiceA_def txTwiceB_def ipldT1_def Int64_def)

theorem C8_tx_by_hash_canonical_witness:
  "db_fault txDb = None
   \<and> RetrieveTxCIDByHash txDb ''0xt1'' (Some 5) = Inr (txCanon, Some ipldT1)
   \<and> txCanon \<in> set (transaction_cids txDb) \<and> t_tx_hash txCanon = ''0xt1''
   \<and> canonical_header_hash txDb (t_block_number txCanon) = Some (t_header_id txCanon)
   \<and> txSibling \<in> set (transaction_cids txDb) \<and> t_tx_hash txSibling = ''0xt1''"
proof -
  have h: "db_fault txDb = None" by (simp add: txDb_def)
  have s: "txSibling \<in> set (transaction_cids txDb) \<and> t_tx_hash txSibling = ''0xt1''"
    by (simp add: txDb_def txSibling_def)
  note all = C8_tx_by_hash_canonical [OF h, of "''0xt1''" "Some 5", unfolded Let_def]
  have "txCanon \<in> set (transaction_cids txDb) \<and> t_tx_hash txCanon = ''0xt1''
        \<and> canonical_header_hash txDb (t_block_number txCanon) = Some (t_header_id txCanon)"
    by (rule all [THEN conjunct2, THEN conjunct2, THEN conjunct2, rule_format,
          OF RetrieveTxCIDByHash_txDb_t1])
  with h s RetrieveTxCIDByHash_txDb_t1 show ?thesis by simp
qed

text \<open>
  The hash \<open>0xt2\<close> is in two canonical blocks of the example index, and a block number outside
  \<open>int64\<close> is wrapped around before it is compared.
\<close>

lemma RetrieveTxCIDByHash_txDb_t2:
  "RetrieveTxCIDByHash txDb ''0xt2'' None = Inl errTxHashInMultipleBlocks
   \<and> RetrieveTxCIDByHash txDb ''0xt2'' (Some 6) = Inr (txTwiceB, None)
   \<and> RetrieveTxCIDByHash txDb ''0xt2'' (Some (2 ^ 64 + 6)) = Inr (txTwiceB, None)
   \<and> RetrieveTxCIDByHash txDb ''0xt9'' None = Inl errTxHashNotFound"
  by (simp add: RetrieveTxCIDByHash_def findTxCIDs_def joinIPLD_def txCanonicalCond_def txDb_def
      txCanon_def txSibling_def txTwiceA_def txTwiceB_def ipldT1_def Int64_def)

section \<open>Properties of the GraphQL resolver\<close>

subsection \<open>C7: a storage lookup that finds no row\<close>

text \<open>
  C7: for every block hash, contract and slot, when the storage lookup of the backend
  yields \<open>sql.ErrNoRows\<close>, the resolver returns (without panicking) a
  \<open>StorageResult\<close> whose value, CID and IPLD block are all empty, and a nil error.
\<close>

theorem C7_GetStorageAt_no_rows:
  assumes "retrieve contract slot blockHash = Inl ErrNoRows"
  shows "GetStorageAt retrieve rlpDecode blockHash contract slot
           = Returns (Inr \<lparr>sr_value = [], sr_cid = [], sr_ipldBlock = []\<rparr>)"
  using assms by (simp add: GetStorageAt_def)

theorem C7_GetStorageAt_no_rows_witness:
  "GetStorageAt (\<lambda>c s h. Inl ErrNoRows) (\<lambda>b. Inl (OtherError ''rlp'')) ''0xh1'' ''0xc'' ''0x01''
     = Returns (Inr \<lparr>sr_value = [], sr_cid = [], sr_ipldBlock = []\<rparr>)"
  using C7_GetStorageAt_no_rows [of "\<lambda>c s h. Inl ErrNoRows" "''0xc''" "''0x01''" "''0xh1''"
      "\<lambda>b. Inl (OtherError ''rlp'')"]
  by simp

section \<open>Properties of the subscription service\<close>

subsection \<open>C5: the blocks of a backfill\<close>






subsection \<open>C10: every bucket has its settings recorded\<close>

lemma fold_invariant:
  assumes "\<And>x s. P s \<Longrightarrow> P (f x s)" "P s"
  shows "P (fold f xs s)"
  using assms(2) by (induction xs arbitrary: s) (simp_all add: assms(1))

lemma emit_fields [simp]:
  "Subscriptions (emit e s) = Subscriptions s"
  "SubscriptionTypes (emit e s) = SubscriptionTypes s"
  "QuitChanClosed (emit e s) = QuitChanClosed s"
  "serveWgSet (emit e s) = serveWgSet s"
  "trace (emit e s) = trace s @ [e]"
  by (simp_all add: emit_def)

lemma emit_keys [simp]:
  "subscriptionKeys (emit e s) = subscriptionKeys s"
  "typeKeys (emit e s) = typeKeys s"
  by (simp_all add: subscriptionKeys_def typeKeys_def)

lemma emit_missing [simp]:
  "missingConfigLogged (emit e s) = (missingConfigLogged s \<or> isMissingConfig e)"
  by (simp add: missingConfigLogged_def)

lemma consistent_emit: "consistent s \<Longrightarrow> \<not> isMissingConfig e \<Longrightarrow> consistent (emit e s)"
  by (simp add: consistent_def)

lemma consistent_sendNonBlockingQuit: "consistent s \<Longrightarrow> consistent (sendNonBlockingQuit sub s)"
  by (simp add: sendNonBlockingQuit_def consistent_emit)

lemma consistent_sendNonBlockingErr: "consistent s \<Longrightarrow> consistent (sendNonBlockingErr sub err s)"
  by (simp add: sendNonBlockingErr_def consistent_emit)

lemma consistent_sendQuits: "consistent s \<Longrightarrow> consistent (sendQuits subs s)"
  unfolding sendQuits_def
  by (rule fold_invariant) (auto simp: consistent_sendNonBlockingQuit)

lemma deleteType_keys [simp]:
  "subscriptionKeys (deleteType ty s) = subscriptionKeys s - {ty}"
  "typeKeys (deleteType ty s) = typeKeys s - {ty}"
  "missingConfigLogged (deleteType ty s) = missingConfigLogged s"
  by (auto simp: deleteType_def subscriptionKeys_def typeKeys_def missingConfigLogged_def delete_conv')

lemma consistent_deleteType: "consistent s \<Longrightarrow> consistent (deleteType ty s)"
  by (simp add: consistent_def)

lemma consistent_closeType: "consistent s \<Longrightarrow> consistent (closeType ty s)"
  by (simp add: closeType_def Let_def consistent_deleteType consistent_sendQuits)

lemma consistent_closeStep: "consistent s \<Longrightarrow> consistent (closeStep ty s)"
  by (simp add: closeStep_def consistent_deleteType consistent_sendQuits split: option.splits)

lemma consistent_close: "consistent s \<Longrightarrow> consistent (close s)"
  unfolding close_def by (rule fold_invariant) (auto simp: consistent_closeStep)

lemma consistent_unsubscribeStep: "consistent s \<Longrightarrow> consistent (unsubscribeStep sid ty s)"
proof (cases "map_of (Subscriptions s) ty")
  case None
  then show "consistent s \<Longrightarrow> ?thesis" by (simp add: unsubscribeStep_def)
next
  case (Some subs)
  let ?s' = "s\<lparr>Subscriptions := AList.update ty (AList.delete sid subs) (Subscriptions s)\<rparr>"
  assume c: "consistent s"
  have k: "subscriptionKeys ?s' = subscriptionKeys s"
    using Some by (auto simp: subscriptionKeys_def update_conv')
  have "consistent ?s'"
    using c k by (simp add: consistent_def typeKeys_def missingConfigLogged_def)
  then have "consistent (deleteType ty ?s')" by (rule consistent_deleteType)
  with \<open>consistent ?s'\<close> show ?thesis
    using Some by (auto simp: unsubscribeStep_def Let_def)
qed

lemma consistent_Unsubscribe: "consistent s \<Longrightarrow> consistent (Unsubscribe sid s)"
  unfolding Unsubscribe_def by (rule fold_invariant) (auto simp: consistent_unsubscribeStep)

lemma consistent_sends:
  "consistent s \<Longrightarrow>
     consistent (fold (\<lambda>(sid, sub). emit (TrySendPayload (PayloadChan sub) p)) subs s)"
  by (rule fold_invariant) (auto simp: consistent_emit)

lemma consistent_serveType: "consistent s \<Longrightarrow> consistent (serveType c payload ty s)"
proof -
  assume c: "consistent s"
  show ?thesis
  proof (cases "map_of (Subscriptions s) ty")
    case None
    then show ?thesis using c by (simp add: serveType_def)
  next
    case (Some subs)
    then have "ty \<in> typeKeys s" using c by (auto simp: consistent_def subscriptionKeys_def)
    then obtain subConfig where t: "map_of (SubscriptionTypes s) ty = Some subConfig"
      by (auto simp: typeKeys_def)
    show ?thesis
      using c Some t
      by (simp add: serveType_def consistent_closeType consistent_sends split: sum.splits)
  qed
qed

lemma consistent_filterAndServe:
  "consistent s \<Longrightarrow> filterAndServe c payload s = Returns s' \<Longrightarrow> consistent s'"
  by (auto simp: filterAndServe_def consistent_serveType fold_invariant split: if_splits)

lemma consistent_addSubscriber:
  "consistent s \<Longrightarrow> consistent (addSubscriber ty sid sub params s)"
  by (auto simp: consistent_def addSubscriber_def Let_def subscriptionKeys_def typeKeys_def
      missingConfigLogged_def update_conv')

lemma consistent_Subscribe:
  "consistent s \<Longrightarrow> Subscribe c sid sub quitChan params s = Returns s' \<Longrightarrow> consistent s'"
  by (auto simp: Subscribe_def Let_def consistent_addSubscriber consistent_emit
      consistent_sendNonBlockingErr consistent_sendNonBlockingQuit
      split: if_splits sum.splits prod.splits)

lemma consistent_ServiceStart: "consistent s \<Longrightarrow> consistent (ServiceStart s)"
  by (simp add: consistent_def ServiceStart_def subscriptionKeys_def typeKeys_def missingConfigLogged_def)

lemma consistent_Stop: "consistent s \<Longrightarrow> Stop s = Returns s' \<Longrightarrow> consistent s'"
proof -
  assume c: "consistent s" and r: "Stop s = Returns s'"
  have "consistent (s\<lparr>QuitChanClosed := True\<rparr>)"
    using c by (simp add: consistent_def subscriptionKeys_def typeKeys_def missingConfigLogged_def)
  then show ?thesis using r by (auto simp: Stop_def consistent_close split: if_splits)
qed

lemma consistent_step: "consistent s \<Longrightarrow> consistent (step c cl s)"
  by (cases cl)
    (auto simp: step_def perform_def consistent_ServiceStart consistent_Unsubscribe
      consistent_closeType
      dest: consistent_Subscribe consistent_filterAndServe consistent_Stop split: outcome.splits)

lemma consistent_NewServer: "consistent NewServer"
  by (simp add: consistent_def NewServer_def subscriptionKeys_def typeKeys_def missingConfigLogged_def)

lemma consistent_run: "consistent s \<Longrightarrow> consistent (run c calls s)"
  unfolding run_def by (rule fold_invariant) (auto simp: consistent_step)

text \<open>
  C10: in every state that a sequence of calls of \<open>Start\<close>, \<open>Subscribe\<close>,
  \<open>Unsubscribe\<close>, \<open>filterAndServe\<close>, \<open>closeType\<close> and \<open>Stop\<close>
  reaches from a new server, whatever the collaborators answer, every key of
  \<open>Subscriptions\<close> is a key of \<open>SubscriptionTypes\<close>, and the
  missing-configuration branch of \<open>filterAndServe\<close> has never been taken.
\<close>

theorem C10_types_recorded:
  "subscriptionKeys (run c calls NewServer) \<subseteq> typeKeys (run c calls NewServer)
   \<and> \<not> missingConfigLogged (run c calls NewServer)"
  using consistent_run [OF consistent_NewServer, of c calls] by (simp add: consistent_def)

lemma run_liveCalls:
  "run backfillCollab liveCalls NewServer =
     \<lparr>QuitChanClosed = False, serveWgSet = True,
      Subscriptions = [(''0xtype'', [(''sub1'', \<lparr>sub_ID = ''sub1'', PayloadChan = 1, QuitChan = 2\<rparr>)])],
      SubscriptionTypes = [(''0xtype'', (allOff 0 0)\<lparr>BackFill := False\<rparr>)], trace = []\<rparr>"
  by (simp add: run_def liveCalls_def step_def perform_def ServiceStart_def Subscribe_def
      NewServer_def backfillCollab_def addSubscriber_def allOff_def)

theorem C10_types_recorded_witness:
  "subscriptionKeys (run backfillCollab liveCalls NewServer) = {''0xtype''}
   \<and> typeKeys (run backfillCollab liveCalls NewServer) = {''0xtype''}
   \<and> \<not> missingConfigLogged (run backfillCollab liveCalls NewServer)"
  using C10_types_recorded [of backfillCollab liveCalls]
  by (simp add: run_liveCalls subscriptionKeys_def typeKeys_def)

subsection \<open>C4: Stop and Unsubscribe, twice\<close>

lemma sendQuits_fields [simp]:
  "Subscriptions (sendQuits subs s) = Subscriptions s"
  "SubscriptionTypes (sendQuits subs s) = SubscriptionTypes s"
  "QuitChanClosed (sendQuits subs s) = QuitChanClosed s"
  "serveWgSet (sendQuits subs s) = serveWgSet s"
  unfolding sendQuits_def
  by (induction subs arbitrary: s; simp add: sendNonBlockingQuit_def split_beta)+

lemma sendQuits_trace:
  "trace (sendQuits subs s) = trace s @ map (\<lambda>(sid, sub). TrySendQuit (QuitChan sub)) subs"
  unfolding sendQuits_def
  by (induction subs arbitrary: s) (simp_all add: sendNonBlockingQuit_def split_beta)

lemma deleteType_fields [simp]:
  "Subscriptions (deleteType ty s) = AList.delete ty (Subscriptions s)"
  "SubscriptionTypes (deleteType ty s) = AList.delete ty (SubscriptionTypes s)"
  "QuitChanClosed (deleteType ty s) = QuitChanClosed s"
  "serveWgSet (deleteType ty s) = serveWgSet s"
  "trace (deleteType ty s) = trace s"
  by (simp_all add: deleteType_def)

lemma closeStep_closed [simp]: "QuitChanClosed (closeStep ty s) = QuitChanClosed s"
  by (simp add: closeStep_def split: option.splits)

lemma close_fold_closed [simp]: "QuitChanClosed (fold closeStep ks s) = QuitChanClosed s"
  by (induction ks arbitrary: s) simp_all

lemma closeStep_Subscriptions:
  "Subscriptions (closeStep ty s) = AList.delete ty (Subscriptions s)"
proof (cases "map_of (Subscriptions s) ty")
  case None
  then have "ty \<notin> fst ` set (Subscriptions s)" by (simp add: map_of_eq_None_iff)
  then show ?thesis using None by (simp add: closeStep_def)
next
  case (Some a)
  then show ?thesis by (simp add: closeStep_def)
qed

lemma close_fold_Subscriptions:
  "Subscriptions (fold closeStep ks s) = filter (\<lambda>(k, v). k \<notin> set ks) (Subscriptions s)"
proof (induction ks arbitrary: s)
  case Nil
  then show ?case by simp
next
  case (Cons k ks)
  show ?case
    by (simp add: Cons.IH closeStep_Subscriptions AList.delete_eq split_beta) (metis (lifting))
qed

lemma close_Subscriptions: "Subscriptions (close s) = []"
  by (force simp: close_def close_fold_Subscriptions filter_empty_conv)

lemma subscriptionKeys_Nil: "Subscriptions s = [] \<Longrightarrow> subscriptionKeys s = {}"
  by (simp add: subscriptionKeys_def)

lemma typeKeys_empty: "typeKeys s = {} \<Longrightarrow> SubscriptionTypes s = []"
  by (cases "SubscriptionTypes s") (auto simp: typeKeys_def)

lemma consistent_close_types: "consistent s \<Longrightarrow> SubscriptionTypes (close s) = []"
proof -
  assume "consistent s"
  then have "consistent (close s)" by (rule consistent_close)
  then have "typeKeys (close s) = {}"
    by (simp add: consistent_def subscriptionKeys_Nil [OF close_Subscriptions])
  then show ?thesis by (rule typeKeys_empty)
qed

text \<open>The trace only grows, and a bucket is left alone until the loop is at its key.\<close>

lemma closeStep_trace_mono: "set (trace s) \<subseteq> set (trace (closeStep ty s))"
  by (auto simp: closeStep_def sendQuits_trace split: option.splits)

lemma close_fold_trace_mono: "set (trace s) \<subseteq> set (trace (fold closeStep ks s))"
proof (induction ks arbitrary: s)
  case Nil
  then show ?case by simp
next
  case (Cons k ks)
  show ?case using closeStep_trace_mono [of s k] Cons.IH [of "closeStep k s"] by auto
qed

lemma closeStep_other:
  "ty \<noteq> k \<Longrightarrow> map_of (Subscriptions (closeStep k s)) ty = map_of (Subscriptions s) ty"
  by (simp add: closeStep_Subscriptions)

lemma close_fold_quits:
  assumes "map_of (Subscriptions s) ty = Some subs" "ty \<in> set ks" "(sid, sub) \<in> set subs"
  shows "TrySendQuit (QuitChan sub) \<in> set (trace (fold closeStep ks s))"
  using assms
proof (induction ks arbitrary: s)
  case Nil
  then show ?case by simp
next
  case (Cons k ks)
  show ?case
  proof (cases "k = ty")
    case True
    have "TrySendQuit (QuitChan sub) \<in> set (trace (closeStep k s))"
      using Cons.prems True by (force simp: closeStep_def sendQuits_trace)
    then show ?thesis using close_fold_trace_mono [of "closeStep k s" ks] by auto
  next
    case False
    then have "map_of (Subscriptions (closeStep k s)) ty = Some subs" "ty \<in> set ks"
      using Cons.prems by (simp_all add: closeStep_other)
    then show ?thesis using Cons.IH [of "closeStep k s"] Cons.prems(3) by simp
  qed
qed

lemma close_quits:
  assumes "map_of (Subscriptions s) ty = Some subs" "(sid, sub) \<in> set subs"
  shows "TrySendQuit (QuitChan sub) \<in> set (trace (close s))"
proof -
  have "ty \<in> set (map fst (Subscriptions s))"
    using assms(1) by (metis domI dom_map_of_conv_image_fst set_map)
  then show ?thesis unfolding close_def using assms close_fold_quits by blast
qed


lemma unsubscribeStep_settled_same: "settled sid (unsubscribeStep sid ty s) ty"
proof (cases "map_of (Subscriptions s) ty")
  case None
  then show ?thesis by (simp add: unsubscribeStep_def settled_def)
next
  case (Some subs)
  then show ?thesis
    by (simp add: unsubscribeStep_def settled_def Let_def update_conv' delete_conv'
        delete_notin_dom)
qed

lemma unsubscribeStep_other:
  "ty' \<noteq> ty \<Longrightarrow>
     map_of (Subscriptions (unsubscribeStep sid ty s)) ty' = map_of (Subscriptions s) ty'"
  by (simp add: unsubscribeStep_def Let_def update_conv' split: option.splits)

lemma unsubscribeStep_settled:
  "settled sid s ty' \<Longrightarrow> settled sid (unsubscribeStep sid ty s) ty'"
  by (cases "ty' = ty")
    (simp_all add: unsubscribeStep_settled_same, simp add: settled_def unsubscribeStep_other)

lemma unsubscribe_fold_settled:
  "ty \<in> set ks \<or> settled sid s ty \<Longrightarrow> settled sid (fold (unsubscribeStep sid) ks s) ty"
proof (induction ks arbitrary: s)
  case Nil
  then show ?case by simp
next
  case (Cons k ks)
  have "ty \<in> set ks \<or> settled sid (unsubscribeStep sid k s) ty"
    using Cons.prems unsubscribeStep_settled_same [of sid k s] unsubscribeStep_settled [of sid s ty k]
    by auto
  then show ?case using Cons.IH [of "unsubscribeStep sid k s"] by simp
qed

lemma Unsubscribe_settled: "settled sid (Unsubscribe sid s) ty"
proof -
  have "ty \<in> set (map fst (Subscriptions s)) \<or> settled sid s ty"
  proof (cases "map_of (Subscriptions s) ty")
    case None
    then show ?thesis by (simp add: settled_def)
  next
    case (Some subs)
    then have "ty \<in> fst ` set (Subscriptions s)" by (force dest: map_of_SomeD)
    then show ?thesis by simp
  qed
  then show ?thesis unfolding Unsubscribe_def by (rule unsubscribe_fold_settled)
qed

lemma unsubscribeStep_id:
  assumes "settled sid s ty"
  shows "unsubscribeStep sid ty s = s"
proof (cases "map_of (Subscriptions s) ty")
  case None
  then show ?thesis by (simp add: unsubscribeStep_def)
next
  case (Some subs)
  then have "sid \<notin> fst ` set subs" "subs \<noteq> []" using assms by (simp_all add: settled_def)
  then show ?thesis using Some by (simp add: unsubscribeStep_def update_triv)
qed

lemma fold_id: "(\<And>x. x \<in> set xs \<Longrightarrow> f x s = s) \<Longrightarrow> fold f xs s = s"
  by (induction xs) simp_all

lemma Unsubscribe_twice: "Unsubscribe sid (Unsubscribe sid s) = Unsubscribe sid s"
  unfolding Unsubscribe_def [of sid "Unsubscribe sid s"]
  by (rule fold_id) (simp add: unsubscribeStep_id Unsubscribe_settled)

text \<open>
  C4 says that a second \<open>Stop\<close> right after the first completes without
  panicking. \<open>Stop\<close> closes \<open>QuitChan\<close> with nothing to tell whether it
  is closed already: on a started service with one subscription the first \<open>Stop\<close>
  returns, and \<open>Stop\<close> on the state it leaves panics.
\<close>

theorem C4_stop_twice_counterexample:
  "(case Stop (run backfillCollab liveCalls NewServer) of
      Returns s' \<Rightarrow> Stop s' = Panics ''close of closed channel''
    | Panics p \<Rightarrow> False)"
  by (simp add: run_liveCalls Stop_def close_def)

text \<open>
  C4 (amended): in every state that a sequence of calls reaches from a new server,
  \<open>Stop\<close> on a service that has not been stopped returns without panicking, and
  then the quit channel is closed, a quit has been sent (without blocking) on the quit
  channel of every subscription the service held, and \<open>Subscriptions\<close> and
  \<open>SubscriptionTypes\<close> are empty; and a second \<open>Unsubscribe\<close> of the same id
  right after the first is safe: it changes nothing.
\<close>

theorem C4_stop_and_unsubscribe:
  "(\<not> QuitChanClosed (run c calls NewServer) \<longrightarrow>
      (\<exists>s'. Stop (run c calls NewServer) = Returns s'
         \<and> QuitChanClosed s' \<and> Subscriptions s' = [] \<and> SubscriptionTypes s' = []
         \<and> (\<forall>ty subs sid sub.
               map_of (Subscriptions (run c calls NewServer)) ty = Some subs \<longrightarrow>
               (sid, sub) \<in> set subs \<longrightarrow> TrySendQuit (QuitChan sub) \<in> set (trace s'))))
   \<and> Unsubscribe sid (Unsubscribe sid (run c calls NewServer))
        = Unsubscribe sid (run c calls NewServer)"
proof (intro conjI impI)
  let ?s = "run c calls NewServer"
  let ?t = "?s\<lparr>QuitChanClosed := True\<rparr>"
  assume notClosed: "\<not> QuitChanClosed ?s"
  have "consistent ?s" by (rule consistent_run [OF consistent_NewServer])
  then have ct: "consistent ?t"
    by (simp add: consistent_def subscriptionKeys_def typeKeys_def missingConfigLogged_def)
  have 1: "Stop ?s = Returns (close ?t)" using notClosed by (simp add: Stop_def)
  have 2: "QuitChanClosed (close ?t)" by (simp add: close_def)
  have 3: "Subscriptions (close ?t) = []" by (rule close_Subscriptions)
  have 4: "SubscriptionTypes (close ?t) = []" using ct by (rule consistent_close_types)
  have 5: "\<forall>ty subs sid sub.
               map_of (Subscriptions ?s) ty = Some subs \<longrightarrow>
               (sid, sub) \<in> set subs \<longrightarrow> TrySendQuit (QuitChan sub) \<in> set (trace (close ?t))"
    using close_quits [of ?t] by simp
  from 1 2 3 4 5
  show "\<exists>s'. Stop ?s = Returns s'
         \<and> QuitChanClosed s' \<and> Subscriptions s' = [] \<and> SubscriptionTypes s' = []
         \<and> (\<forall>ty subs sid sub.
               map_of (Subscriptions ?s) ty = Some subs \<longrightarrow>
               (sid, sub) \<in> set subs \<longrightarrow> TrySendQuit (QuitChan sub) \<in> set (trace s'))"
    by blast
next
  show "Unsubscribe sid (Unsubscribe sid (run c calls NewServer))
        = Unsubscribe sid (run c calls NewServer)"
    by (rule Unsubscribe_twice)
qed

theorem C4_stop_and_unsubscribe_witness:
  "\<not> QuitChanClosed (run backfillCollab liveCalls NewServer)
   \<and> map_of (Subscriptions (run backfillCollab liveCalls NewServer)) ''0xtype''
       = Some [(''sub1'', \<lparr>sub_ID = ''sub1'', PayloadChan = 1, QuitChan = 2\<rparr>)]
   \<and> (\<exists>s'. Stop (run backfillCollab liveCalls NewServer) = Returns s'
         \<and> QuitChanClosed s' \<and> Subscriptions s' = [] \<and> SubscriptionTypes s' = []
         \<and> TrySendQuit 2 \<in> set (trace s'))
   \<and> Unsubscribe ''sub1'' (Unsubscribe ''sub1'' (run backfillCollab liveCalls NewServer))
        = Unsubscribe ''sub1'' (run backfillCollab liveCalls NewServer)"
proof -
  let ?s = "run backfillCollab liveCalls NewServer"
  let ?sub = "\<lparr>sub_ID = ''sub1'', PayloadChan = 1, QuitChan = 2\<rparr>"
  have o: "\<not> QuitChanClosed ?s" by (simp add: run_liveCalls)
  have m: "map_of (Subscriptions ?s) ''0xtype'' = Some [(''sub1'', ?sub)]"
    by (simp add: run_liveCalls)
  have i: "(''sub1'', ?sub) \<in> set [(''sub1'', ?sub)]" by simp
  from C4_stop_and_unsubscribe [of backfillCollab liveCalls "''sub1''"] o
  obtain s' where s': "Stop ?s = Returns s'" "QuitChanClosed s'" "Subscriptions s' = []"
      "SubscriptionTypes s' = []"
      "\<forall>ty subs sid sub. map_of (Subscriptions ?s) ty = Some subs \<longrightarrow>
               (sid, sub) \<in> set subs \<longrightarrow> TrySendQuit (QuitChan sub) \<in> set (trace s')"
    and u: "Unsubscribe ''sub1'' (Unsubscribe ''sub1'' ?s) = Unsubscribe ''sub1'' ?s"
    by blast
  from s'(5) m i have "TrySendQuit (QuitChan ?sub) \<in> set (trace s')" by blast
  then have "TrySendQuit 2 \<in> set (trace s')" by simp
  with s' o m u show ?thesis by blast
qed

section \<open>Properties of Retrieve\<close>

subsection \<open>C6: one transaction, rolled back or committed\<close>


lemma logged_proceed [simp]: "logged st (proceed x)"
  by (simp add: logged_def proceed_def)

















lemma with_reply: "isQueryWith res (TxQuery c res') \<longleftrightarrow> res' = res"
  by simp





text \<open>
  The two other ends of the transaction: a transaction query that fails, and the same with
  every method yielding rows.
\<close>

lemma Retrieve_failingTxs:
  "Retrieve failingTxs headersAndTxs 7 =
     (Some (Returns ([], True, Some (DriverError ''connection reset''))),
      [TxBegin, TxQuery (CallHeaderCIDs 7) QueryOk,
       TxQuery (CallTxCIDs (TxFilter headersAndTxs) ''0xh7'') (QueryFailed (DriverError ''connection reset'')),
       TxRollback])"
  by (simp add: Retrieve_def failingTxs_def headersAndTxs_def allOff_def retrieveForHeader_def
      withHeader_def withTransactions_def headerSeven_def andThen_def query_def proceed_def)

lemma Retrieve_yieldingRows:
  "Retrieve yieldingRows headersAndTxs 7 =
     (Some (Returns ([(newCIDWrapper 7)\<lparr>cw_Header := Some headerSeven, cw_Transactions := [txSeven]\<rparr>],
                     False, None)),
      [TxBegin, TxQuery (CallHeaderCIDs 7) QueryOk,
       TxQuery (CallTxCIDs (TxFilter headersAndTxs) ''0xh7'') QueryOk, TxCommit])"
  by (simp add: Retrieve_def yieldingRows_def headersAndTxs_def allOff_def retrieveForHeader_def
      withHeader_def withTransactions_def withReceipts_def withStateNodes_def withStorageNodes_def
      headerSeven_def andThen_def query_def proceed_def)

subsection \<open>C3: the receipts a filter selects\<close>

text \<open>
  The statement \<open>receiptFilterConditions\<close> builds parses to \<open>filterConds\<close>, its arguments are
  \<open>filterArgs\<close>, and its conditions hold of a receipt exactly when \<open>rctSelected\<close> does.
\<close>

lemma topicFilterLoop_eq:
  "topicFilterLoop i topics pid args pgStr first =
     (pid + length (topicArgs topics), pgStr @ topicTokens i topics pid first, args @ topicArgs topics)"
  by (induction topics arbitrary: i pid args pgStr first) (simp_all add: topicArgs_def)

lemma topicTokens_no_RParen: "RParen \<notin> set (topicTokens i topics pid first)"
  by (induction topics arbitrary: i pid first) simp_all

lemma not_hasTopics: "\<not> hasTopics topics \<Longrightarrow> topicTokens i topics pid first = [] \<and> topicArgs topics = [] \<and> topicConds i topics pid = []"
  by (induction topics arbitrary: i) (simp_all add: hasTopics_def topicArgs_def)

lemma parse_topicTokens_more:
  "parseLogCond t = Some c \<Longrightarrow>
     parseLogWhere (t # topicTokens i topics pid False) = Some (c # topicConds i topics pid)"
proof (induction topics arbitrary: i pid t c)
  case Nil
  then show ?case by simp
next
  case (Cons topicSet topics)
  show ?case
  proof (cases "topicSet = []")
    case True
    then show ?thesis using Cons by simp
  next
    case False
    have "parseLogWhere (LogTopicAny i pid # topicTokens (i + 1) topics (pid + 1) False)
            = Some (LogTopicIn i pid # topicConds (i + 1) topics (pid + 1))"
      by (rule Cons.IH) simp
    then show ?thesis using False Cons.prems by simp
  qed
qed

lemma parse_topicTokens_first:
  "hasTopics topics \<Longrightarrow>
     parseLogWhere (topicTokens i topics pid True) = Some (topicConds i topics pid)"
proof (induction topics arbitrary: i)
  case Nil
  then show ?case by (simp add: hasTopics_def)
next
  case (Cons topicSet topics)
  show ?case
  proof (cases "topicSet = []")
    case True
    then have "hasTopics topics" using Cons.prems by (simp add: hasTopics_def)
    then show ?thesis using True Cons.IH by simp
  next
    case False
    then show ?thesis by (simp add: parse_topicTokens_more)
  qed
qed

lemma topicConds_placeholders:
  "map logPlaceholder (topicConds i topics pid) = [pid ..< pid + length (topicArgs topics)]"
proof (induction topics arbitrary: i pid)
  case Nil
  then show ?case by (simp add: topicArgs_def)
next
  case (Cons topicSet topics)
  show ?case
  proof (cases "topicSet = []")
    case True
    then show ?thesis using Cons.IH [of "i + 1" pid] by (simp add: topicArgs_def)
  next
    case False
    let ?k = "length (topicArgs topics)"
    have "[pid ..< pid + Suc ?k] = pid # [Suc pid ..< Suc pid + ?k]"
      by (simp del: upt_Suc add: upt_conv_Cons)
    moreover have "length (topicArgs (topicSet # topics)) = Suc ?k"
      using False by (simp add: topicArgs_def)
    ultimately show ?thesis using False Cons.IH [of "i + 1" "pid + 1"] by (simp del: upt_Suc)
  qed
qed

lemma textArrayAt_here:
  "textArrayAt (pre @ ArgTextArray xs # post) (Suc (length pre)) = Some xs"
  by (simp add: textArrayAt_def argAt_def nth_append)

lemma topicConds_holds:
  "pid = Suc (length pre) \<Longrightarrow>
     list_all (holdsLog (pre @ topicArgs topics @ post) lg) (topicConds i topics pid)
       = topicsMatchFrom i topics lg"
proof (induction topics arbitrary: i pid pre)
  case Nil
  then show ?case by simp
next
  case (Cons topicSet topics)
  show ?case
  proof (cases "topicSet = []")
    case True
    then show ?thesis using Cons.IH [of pid pre "i + 1"] Cons.prems by (simp add: topicArgs_def)
  next
    case False
    have a: "topicArgs (topicSet # topics) = ArgTextArray topicSet # topicArgs topics"
      using False by (simp add: topicArgs_def)
    have h: "textArrayAt (pre @ ArgTextArray topicSet # topicArgs topics @ post) pid = Some topicSet"
      using Cons.prems textArrayAt_here [of pre topicSet "topicArgs topics @ post"] by simp
    have "list_all (holdsLog ((pre @ [ArgTextArray topicSet]) @ topicArgs topics @ post) lg)
            (topicConds (i + 1) topics (pid + 1)) = topicsMatchFrom (i + 1) topics lg"
      by (rule Cons.IH) (simp add: Cons.prems)
    then show ?thesis using False a h by (simp split: option.splits)
  qed
qed

lemma topicConds_valid:
  "pid = Suc (length pre) \<Longrightarrow> list_all (\<lambda>ts. ts = []) (drop (4 - i) topics) \<Longrightarrow>
     list_all (validLogCond (pre @ topicArgs topics @ post)) (topicConds i topics pid)"
proof (induction topics arbitrary: i pid pre)
  case Nil
  then show ?case by simp
next
  case (Cons topicSet topics)
  have d: "list_all (\<lambda>ts. ts = []) (drop (4 - (i + 1)) topics)"
  proof (cases "i < 4")
    case True
    then have k: "4 - i = Suc (4 - (i + 1))" by simp
    have "list_all (\<lambda>ts. ts = []) (drop (Suc (4 - (i + 1))) (topicSet # topics))"
      using Cons.prems(2) by (simp only: k)
    then show ?thesis by (simp only: drop_Suc_Cons)
  next
    case False
    then have k: "4 - i = 0" "4 - (i + 1) = 0" by simp_all
    have "list_all (\<lambda>ts. ts = []) (drop 0 (topicSet # topics))"
      using Cons.prems(2) by (simp only: k)
    then show ?thesis by (simp only: k) simp
  qed
  show ?case
  proof (cases "topicSet = []")
    case True
    then show ?thesis using Cons.IH [OF Cons.prems(1) d] by (simp add: topicArgs_def)
  next
    case False
    have a: "topicArgs (topicSet # topics) = ArgTextArray topicSet # topicArgs topics"
      using False by (simp add: topicArgs_def)
    have h: "textArrayAt (pre @ ArgTextArray topicSet # topicArgs topics @ post) pid = Some topicSet"
      using Cons.prems textArrayAt_here [of pre topicSet "topicArgs topics @ post"] by simp
    have i4: "i < 4"
    proof (rule ccontr)
      assume "\<not> i < 4"
      then have "4 - i = 0" by simp
      then show False using Cons.prems(2) False by simp
    qed
    have "list_all (validLogCond ((pre @ [ArgTextArray topicSet]) @ topicArgs topics @ post))
            (topicConds (i + 1) topics (pid + 1))"
      by (rule Cons.IH [OF _ d]) (simp add: Cons.prems)
    then show ?thesis using False a h i4 by simp
  qed
qed

lemma takeWhile_upto: "x \<notin> set xs \<Longrightarrow> takeWhile (\<lambda>t. t \<noteq> x) (xs @ x # rest) = xs"
  by (induction xs) auto

lemma dropWhile_upto: "x \<notin> set xs \<Longrightarrow> dropWhile (\<lambda>t. t \<noteq> x) (xs @ x # rest) = x # rest"
  by (induction xs) auto

lemma parseLogGroup_topics:
  assumes "parseLogWhere (pre @ topicTokens i topics pid first) = Some cs" "RParen \<notin> set pre"
  shows "parseLogGroup (pre @ topicTokens i topics pid first @ [RParen, RParen]) = Some (TxIdInLogs cs)"
    and "parseLogGroup (pre @ topicTokens i topics pid first @ [RParen, KwOr, TxIdAny n, RParen])
           = Some (TxIdInLogsOrIn cs n)"
proof -
  let ?ts = "pre @ topicTokens i topics pid first"
  have no: "RParen \<notin> set ?ts" using assms(2) topicTokens_no_RParen [of i topics pid first] by simp
  have t: "\<And>rest. takeWhile (\<lambda>t. t \<noteq> RParen) (?ts @ RParen # rest) = ?ts"
    using no by (rule takeWhile_upto)
  have d: "\<And>rest. dropWhile (\<lambda>t. t \<noteq> RParen) (?ts @ RParen # rest) = RParen # rest"
    using no by (rule dropWhile_upto)
  show "parseLogGroup (pre @ topicTokens i topics pid first @ [RParen, RParen]) = Some (TxIdInLogs cs)"
    using t [of "[RParen]"] d [of "[RParen]"] assms(1) by (simp add: parseLogGroup_def)
  show "parseLogGroup (pre @ topicTokens i topics pid first @ [RParen, KwOr, TxIdAny n, RParen])
           = Some (TxIdInLogsOrIn cs n)"
    using t [of "[KwOr, TxIdAny n, RParen]"] d [of "[KwOr, TxIdAny n, RParen]"] assms(1)
    by (simp add: parseLogGroup_def parseOrTxIdAny_def)
qed

lemma rfc_addresses:
  assumes "rf_LogAddresses f \<noteq> []"
  shows "receiptFilterConditions pid pgStr args f txHashes =
     (pid + 1 + length (topicArgs (rf_Topics f)),
      pgStr @ [KwAnd, LParen, TxIdAnyOpen, SelectRctIdFromLogCidsWhere]
        @ [LogAddressAny pid] @ topicTokens 0 (rf_Topics f) (pid + 1) False
        @ (if byHashes f txHashes
           then [RParen, KwOr, TxIdAny (pid + 1 + length (topicArgs (rf_Topics f))), RParen]
           else [RParen, RParen]),
      args @ ArgTextArray (rf_LogAddresses f) # topicArgs (rf_Topics f)
        @ (if byHashes f txHashes then [ArgTextArray txHashes] else []))"
proof (cases "hasTopics (rf_Topics f)")
  case True
  then show ?thesis using assms
    by (simp add: receiptFilterConditions_def topicFilterCondition_def topicFilterLoop_eq
        orTxHashes_def byHashes_def Let_def)
next
  case False
  then show ?thesis using assms not_hasTopics [OF False]
    by (simp add: receiptFilterConditions_def orTxHashes_def byHashes_def Let_def)
qed

lemma rfc_topics:
  assumes "rf_LogAddresses f = []" "hasTopics (rf_Topics f)"
  shows "receiptFilterConditions pid pgStr args f txHashes =
     (pid + length (topicArgs (rf_Topics f)),
      pgStr @ [KwAnd, LParen, TxIdAnyOpen, SelectRctIdFromLogCidsWhere]
        @ [] @ topicTokens 0 (rf_Topics f) pid True
        @ (if byHashes f txHashes
           then [RParen, KwOr, TxIdAny (pid + length (topicArgs (rf_Topics f))), RParen]
           else [RParen, RParen]),
      args @ topicArgs (rf_Topics f)
        @ (if byHashes f txHashes then [ArgTextArray txHashes] else []))"
  using assms
  by (simp add: receiptFilterConditions_def topicFilterCondition_def topicFilterLoop_eq
      orTxHashes_def byHashes_def Let_def)

lemma rfc_hashes:
  assumes "rf_LogAddresses f = []" "\<not> hasTopics (rf_Topics f)"
  shows "receiptFilterConditions pid pgStr args f txHashes =
     (pid, pgStr @ (if byHashes f txHashes then [KwAnd, TxIdAny pid] else []),
      args @ (if byHashes f txHashes then [ArgTextArray txHashes] else []))"
  using assms by (simp add: receiptFilterConditions_def byHashes_def Let_def)

lemma parse_filter:
  "parseWhereTail (fst (snd (receiptFilterConditions pid [] args f txHashes)))
     = Some (filterConds pid f txHashes)"
proof (cases "rf_LogAddresses f \<noteq> []")
  case True
  have p: "parseLogWhere ([LogAddressAny pid] @ topicTokens 0 (rf_Topics f) (pid + 1) False)
             = Some (LogAddressIn pid # topicConds 0 (rf_Topics f) (pid + 1))"
    by (simp add: parse_topicTokens_more)
  have n: "RParen \<notin> set [LogAddressAny pid]" by simp
  show ?thesis
    using True parseLogGroup_topics [OF p n]
    by (simp add: rfc_addresses filterConds_def parseLogGroupOpen_def Let_def)
next
  case False
  show ?thesis
  proof (cases "hasTopics (rf_Topics f)")
    case True
    have p: "parseLogWhere ([] @ topicTokens 0 (rf_Topics f) pid True)
               = Some (topicConds 0 (rf_Topics f) pid)"
      using True by (simp add: parse_topicTokens_first)
    have n: "RParen \<notin> set []" by simp
    show ?thesis
      using False True parseLogGroup_topics [OF p n]
      by (simp add: rfc_topics filterConds_def parseLogGroupOpen_def Let_def)
  next
    case nt: False
    show ?thesis using False nt by (simp add: rfc_hashes filterConds_def)
  qed
qed

lemma rfc_append:
  "receiptFilterConditions pid pgStr args f txHashes =
     (fst (receiptFilterConditions pid [] [] f txHashes),
      pgStr @ fst (snd (receiptFilterConditions pid [] [] f txHashes)),
      args @ filterArgs f txHashes)"
proof (cases "rf_LogAddresses f \<noteq> []")
  case True
  then show ?thesis by (simp add: rfc_addresses filterArgs_def)
next
  case False
  then show ?thesis
    by (cases "hasTopics (rf_Topics f)")
      (simp_all add: rfc_topics rfc_hashes filterArgs_def not_hasTopics)
qed

lemma rfc_tokens:
  "fst (snd (receiptFilterConditions pid [] [] f txHashes))
     = fst (snd (receiptFilterConditions pid [] args f txHashes))"
  by (subst rfc_append [of pid "[]" args]) simp

lemma upt_three:
  "[p ..< p + (a + k + h)] = [p ..< p + a] @ [p + a ..< p + a + k] @ [p + a + k ..< p + a + k + h]"
proof -
  have "[p ..< p + a + k + h] = [p ..< p + a + k] @ [p + a + k ..< p + a + k + h]"
    by (rule upt_add_eq_append) simp
  moreover have "[p ..< p + a + k] = [p ..< p + a] @ [p + a ..< p + a + k]"
    by (rule upt_add_eq_append) simp
  ultimately show ?thesis by (simp add: add.assoc)
qed

lemma upt_one: "[n ..< n + 1] = [n::nat]"
  by simp

lemma filterConds_placeholders:
  "concat (map placeholders (filterConds pid f txHashes))
     = [pid ..< pid + length (filterArgs f txHashes)]"
proof -
  let ?k = "length (topicArgs (rf_Topics f))"
  let ?a = "if rf_LogAddresses f \<noteq> [] then 1 else 0 :: nat"
  let ?h = "if byHashes f txHashes then 1 else 0 :: nat"
  have len: "length (filterArgs f txHashes) = ?a + ?k + ?h"
    by (simp add: filterArgs_def)
  have "concat (map placeholders (filterConds pid f txHashes))
          = [pid ..< pid + ?a] @ [pid + ?a ..< pid + ?a + ?k] @ [pid + ?a + ?k ..< pid + ?a + ?k + ?h]"
  proof (cases "rf_LogAddresses f \<noteq> []")
    case True
    then show ?thesis
      using topicConds_placeholders [of 0 "rf_Topics f" "pid + 1"] upt_one [of pid]
        upt_one [of "pid + 1 + ?k"]
      by (simp del: upt_Suc add: filterConds_def Let_def)
  next
    case False
    show ?thesis
    proof (cases "hasTopics (rf_Topics f)")
      case True
      then show ?thesis
        using False topicConds_placeholders [of 0 "rf_Topics f" pid] upt_one [of "pid + ?k"]
        by (simp del: upt_Suc add: filterConds_def Let_def)
    next
      case nt: False
      then show ?thesis
        using False not_hasTopics [OF nt] upt_one [of pid]
        by (simp del: upt_Suc add: filterConds_def)
    qed
  qed
  then show ?thesis unfolding len by (simp only: upt_three)
qed

lemma in_selectRctIdFromLogCids:
  "x \<in> set (selectRctIdFromLogCids db args cs)
     \<longleftrightarrow> list_ex (\<lambda>lg. l_rct_id lg = x \<and> list_all (holdsLog args lg) cs) (log_cids db)"
  by (auto simp: selectRctIdFromLogCids_def list_ex_iff)

lemma filterConds_holds:
  assumes pid: "pid = Suc (length pre)"
  shows "list_all (holds db (pre @ filterArgs f txHashes) (r, t, h)) (filterConds pid f txHashes)
           = rctSelected db f txHashes r"
proof -
  let ?topics = "rf_Topics f"
  let ?k = "length (topicArgs ?topics)"
  let ?post = "if byHashes f txHashes then [ArgTextArray txHashes] else []"
  let ?args = "pre @ filterArgs f txHashes"
  let ?byLog = "list_ex (\<lambda>lg. l_rct_id lg = r_tx_id r \<and> logMatches f lg) (log_cids db)"
  have ifhash: "byHashes f txHashes \<Longrightarrow> r_tx_id r \<in> set txHashes \<Longrightarrow> rctSelected db f txHashes r"
    by (simp add: rctSelected_def)
  show ?thesis
  proof (cases "rf_LogAddresses f \<noteq> []")
    case True
    let ?A = "ArgTextArray (rf_LogAddresses f)"
    let ?cs = "LogAddressIn pid # topicConds 0 ?topics (pid + 1)"
    have args: "?args = pre @ ?A # topicArgs ?topics @ ?post"
      using True by (simp add: filterArgs_def)
    have addr: "textArrayAt ?args pid = Some (rf_LogAddresses f)"
      unfolding args pid by (rule textArrayAt_here)
    have top: "\<And>lg. list_all (holdsLog ?args lg) (topicConds 0 ?topics (pid + 1))
                 = topicsMatchFrom 0 ?topics lg"
      using topicConds_holds [of "pid + 1" "pre @ [?A]" ?topics ?post _ 0] pid
      by (simp add: args)
    have logs: "\<And>lg. list_all (holdsLog ?args lg) ?cs = logMatches f lg"
      using True addr top by (simp add: logMatches_def)
    have g: "(r_tx_id r \<in> set (selectRctIdFromLogCids db ?args ?cs)) = ?byLog"
      by (simp only: in_selectRctIdFromLogCids logs)
    have bl: "byLogs f" using True by (simp add: byLogs_def)
    show ?thesis
    proof (cases "byHashes f txHashes")
      case bh: True
      have hashes: "textArrayAt ?args (pid + 1 + ?k) = Some txHashes"
        using textArrayAt_here [of "pre @ ?A # topicArgs ?topics" txHashes "[]"] pid bh
        by (simp add: args)
      have "filterConds pid f txHashes = [TxIdInLogsOrIn ?cs (pid + 1 + ?k)]"
        using True bh by (simp add: filterConds_def Let_def)
      then show ?thesis using g hashes bl bh by (simp add: rctSelected_def)
    next
      case bh: False
      have "filterConds pid f txHashes = [TxIdInLogs ?cs]"
        using True bh by (simp add: filterConds_def Let_def)
      then show ?thesis using g bl bh by (simp add: rctSelected_def)
    qed
  next
    case False
    show ?thesis
    proof (cases "hasTopics ?topics")
      case True
      let ?cs = "topicConds 0 ?topics pid"
      have args: "?args = pre @ topicArgs ?topics @ ?post"
        using False by (simp add: filterArgs_def)
      have top: "\<And>lg. list_all (holdsLog ?args lg) ?cs = topicsMatchFrom 0 ?topics lg"
        using topicConds_holds [of pid pre ?topics ?post _ 0] pid by (simp add: args)
      have logs: "\<And>lg. list_all (holdsLog ?args lg) ?cs = logMatches f lg"
        using False top by (simp add: logMatches_def)
      have g: "(r_tx_id r \<in> set (selectRctIdFromLogCids db ?args ?cs)) = ?byLog"
        by (simp only: in_selectRctIdFromLogCids logs)
      have bl: "byLogs f" using True by (simp add: byLogs_def)
      show ?thesis
      proof (cases "byHashes f txHashes")
        case bh: True
        have hashes: "textArrayAt ?args (pid + ?k) = Some txHashes"
          using textArrayAt_here [of "pre @ topicArgs ?topics" txHashes "[]"] pid bh
          by (simp add: args)
        have "filterConds pid f txHashes = [TxIdInLogsOrIn ?cs (pid + ?k)]"
          using False True bh by (simp add: filterConds_def Let_def)
        then show ?thesis using g hashes bl bh by (simp add: rctSelected_def)
      next
        case bh: False
        have "filterConds pid f txHashes = [TxIdInLogs ?cs]"
          using False True bh by (simp add: filterConds_def Let_def)
        then show ?thesis using g bl bh by (simp add: rctSelected_def)
      qed
    next
      case nt: False
      have bl: "\<not> byLogs f" using False nt by (simp add: byLogs_def)
      show ?thesis
      proof (cases "byHashes f txHashes")
        case bh: True
        have hashes: "textArrayAt ?args pid = Some txHashes"
          using textArrayAt_here [of pre txHashes "[]"] pid False not_hasTopics [OF nt] bh
          by (simp add: filterArgs_def)
        have "filterConds pid f txHashes = [TxIdIn pid]"
          using False nt bh by (simp add: filterConds_def)
        then show ?thesis using hashes bl bh by (simp add: rctSelected_def)
      next
        case bh: False
        have "filterConds pid f txHashes = []"
          using False nt bh by (simp add: filterConds_def)
        then show ?thesis using bl bh by (simp add: rctSelected_def)
      qed
    qed
  qed
qed

lemma filterConds_valid:
  assumes pid: "pid = Suc (length pre)"
    and topics: "list_all (\<lambda>ts. ts = []) (drop 4 (rf_Topics f))"
  shows "list_all (validCond (pre @ filterArgs f txHashes)) (filterConds pid f txHashes)"
proof -
  let ?topics = "rf_Topics f"
  let ?k = "length (topicArgs ?topics)"
  let ?post = "if byHashes f txHashes then [ArgTextArray txHashes] else []"
  have d: "list_all (\<lambda>ts. ts = []) (drop (4 - 0) ?topics)" using topics by simp
  show ?thesis
  proof (cases "rf_LogAddresses f \<noteq> []")
    case True
    let ?A = "ArgTextArray (rf_LogAddresses f)"
    let ?args = "pre @ filterArgs f txHashes"
    have args: "?args = pre @ ?A # topicArgs ?topics @ ?post"
      using True by (simp add: filterArgs_def)
    have addr: "textArrayAt ?args pid = Some (rf_LogAddresses f)"
      unfolding args pid by (rule textArrayAt_here)
    have top: "list_all (validLogCond ?args) (topicConds 0 ?topics (pid + 1))"
      using topicConds_valid [of "pid + 1" "pre @ [?A]" 0 ?topics ?post, OF _ d] pid
      by (simp add: args)
    have hashes: "byHashes f txHashes \<Longrightarrow> textArrayAt ?args (pid + 1 + ?k) = Some txHashes"
      using textArrayAt_here [of "pre @ ?A # topicArgs ?topics" txHashes "[]"] pid
      by (simp add: args)
    show ?thesis
      using True addr top hashes by (simp add: filterConds_def Let_def)
  next
    case False
    show ?thesis
    proof (cases "hasTopics ?topics")
      case True
      let ?args = "pre @ filterArgs f txHashes"
      have args: "?args = pre @ topicArgs ?topics @ ?post"
        using False by (simp add: filterArgs_def)
      have top: "list_all (validLogCond ?args) (topicConds 0 ?topics pid)"
        using topicConds_valid [of pid pre 0 ?topics ?post, OF _ d] pid by (simp add: args)
      have hashes: "byHashes f txHashes \<Longrightarrow> textArrayAt ?args (pid + ?k) = Some txHashes"
        using textArrayAt_here [of "pre @ topicArgs ?topics" txHashes "[]"] pid
        by (simp add: args)
      show ?thesis
        using False True top hashes by (simp add: filterConds_def Let_def)
    next
      case nt: False
      have hashes: "byHashes f txHashes \<Longrightarrow>
                      textArrayAt (pre @ filterArgs f txHashes) pid = Some txHashes"
        using textArrayAt_here [of pre txHashes "[]"] pid False not_hasTopics [OF nt]
        by (simp add: filterArgs_def)
      show ?thesis
        using False nt hashes by (simp add: filterConds_def)
    qed
  qed
qed

lemma upt_two: "[1 ..< Suc (a + b)] = [1 ..< Suc a] @ [Suc a ..< Suc a + b]"
proof -
  have "[1 ..< Suc a + b] = [1 ..< Suc a] @ [Suc a ..< Suc a + b]"
    by (rule upt_add_eq_append) simp
  then show ?thesis by simp
qed

lemma select_with_header:
  assumes healthy: "db_fault db = None"
    and topics: "list_all (\<lambda>ts. ts = []) (drop 4 (rf_Topics f))"
    and pid: "pid = Suc (length hargs)"
    and parse: "parseWhereTail (hdrToks @ fst (snd (receiptFilterConditions pid [] [] f txHashes)))
                  = Some (hconds @ filterConds pid f txHashes)"
    and ph: "concat (map placeholders hconds) = [1 ..< Suc (length hargs)]"
    and valid: "list_all (validCond (hargs @ filterArgs f txHashes)) hconds"
    and holds: "\<And>r t h. list_all (holds db (hargs @ filterArgs f txHashes) (r, t, h)) hconds = H h"
  shows "selectReceipts db (hdrToks @ fst (snd (receiptFilterConditions pid [] [] f txHashes)))
           (hargs @ filterArgs f txHashes)
         = Inr (map fst (sort_key (\<lambda>(r, t, h). t_index t)
              (filter (\<lambda>(r, t, h). H h \<and> rctSelected db f txHashes r) (rctJoin db))))"
proof -
  let ?args = "hargs @ filterArgs f txHashes"
  let ?conds = "hconds @ filterConds pid f txHashes"
  have p: "concat (map placeholders ?conds) = [1 ..< Suc (length ?args)]"
    using ph filterConds_placeholders [of pid f txHashes]
      upt_two [of "length hargs" "length (filterArgs f txHashes)"]
    by (simp del: upt_Suc add: pid)
  have v: "list_all (validCond ?args) ?conds"
    using valid filterConds_valid [OF pid topics, of txHashes] by simp
  have h: "\<And>row. list_all (holds db ?args row) ?conds
             = (case row of (r, t, h) \<Rightarrow> H h \<and> rctSelected db f txHashes r)"
    using holds filterConds_holds [OF pid, of db f txHashes] by (auto simp: split_beta)
  show ?thesis
    unfolding selectReceipts_def
    by (simp only: healthy parse p v h option.case if_False if_True refl simp_thms)
qed

lemma rfc_case:
  "(case receiptFilterConditions pid pgStr args f txHashes of (pid3, pgStr3, args3) \<Rightarrow> g pgStr3 args3)
     = g (pgStr @ fst (snd (receiptFilterConditions pid [] [] f txHashes))) (args @ filterArgs f txHashes)"
  by (subst rfc_append) simp

text \<open>
  With a healthy database and topic lists at the four positions \<open>topic0\<close> .. \<open>topic3\<close> only,
  \<open>RetrieveRctCIDs\<close> returns the receipts of the headers matching the block number and hash that
  \<open>rctSelected\<close> selects, ordered by the index of their transaction.
\<close>

theorem RetrieveRctCIDs_selects:
  assumes healthy: "db_fault db = None"
    and topics: "list_all (\<lambda>ts. ts = []) (drop 4 (rf_Topics f))"
  shows "RetrieveRctCIDs db f blockNumber blockHash txHashes
         = Inr (map fst (sort_key (\<lambda>(r, t, h). t_index t)
              (filter (\<lambda>(r, t, h). headerMatches blockNumber blockHash h \<and> rctSelected db f txHashes r)
                 (rctJoin db))))"
proof -
  let ?toks = "\<lambda>pid. fst (snd (receiptFilterConditions pid [] [] f txHashes))"
  have pf: "\<And>pid. parseWhereTail (?toks pid) = Some (filterConds pid f txHashes)"
    by (rule parse_filter)
  show ?thesis
  proof (cases "blockNumber > 0")
    case n: True
    show ?thesis
    proof (cases "blockHash \<noteq> []")
      case b: True
      let ?hargs = "[ArgBigint blockNumber, ArgText blockHash]"
      have r: "RetrieveRctCIDs db f blockNumber blockHash txHashes
                 = selectReceipts db ([KwAnd, HeaderBlockNumberEq 1, KwAnd, HeaderBlockHashEq 2]
                       @ ?toks 3) (?hargs @ filterArgs f txHashes)"
        using n b by (simp add: RetrieveRctCIDs_def rfc_case)
      show ?thesis
        unfolding r
        by (subst select_with_header [OF healthy topics, where hconds = "[HeaderNumberIs 1, HeaderHashIs 2]"
              and H = "headerMatches blockNumber blockHash"])
          (use n b in \<open>simp_all add: pf argAt_def headerMatches_def\<close>)
    next
      case b: False
      let ?hargs = "[ArgBigint blockNumber]"
      have r: "RetrieveRctCIDs db f blockNumber blockHash txHashes
                 = selectReceipts db ([KwAnd, HeaderBlockNumberEq 1]
                       @ ?toks 2) (?hargs @ filterArgs f txHashes)"
        using n b by (simp add: RetrieveRctCIDs_def rfc_case)
      show ?thesis
        unfolding r
        by (subst select_with_header [OF healthy topics, where hconds = "[HeaderNumberIs 1]"
              and H = "headerMatches blockNumber blockHash"])
          (use n b in \<open>simp_all add: pf argAt_def headerMatches_def\<close>)
    qed
  next
    case n: False
    show ?thesis
    proof (cases "blockHash \<noteq> []")
      case b: True
      let ?hargs = "[ArgText blockHash]"
      have r: "RetrieveRctCIDs db f blockNumber blockHash txHashes
                 = selectReceipts db ([KwAnd, HeaderBlockHashEq 1]
                       @ ?toks 2) (?hargs @ filterArgs f txHashes)"
        using n b by (simp add: RetrieveRctCIDs_def rfc_case numeral_2_eq_2)
      show ?thesis
        unfolding r
        by (subst select_with_header [OF healthy topics, where hconds = "[HeaderHashIs 1]"
              and H = "headerMatches blockNumber blockHash"])
          (use n b in \<open>simp_all add: pf argAt_def headerMatches_def\<close>)
    next
      case b: False
      let ?hargs = "[] :: sql_arg list"
      have r: "RetrieveRctCIDs db f blockNumber blockHash txHashes
                 = selectReceipts db ([] @ ?toks 1) (?hargs @ filterArgs f txHashes)"
        using n b by (simp add: RetrieveRctCIDs_def rfc_case)
      show ?thesis
        unfolding r
        by (subst select_with_header [OF healthy topics, where hconds = "[]"
              and H = "headerMatches blockNumber blockHash"])
          (use n b in \<open>simp_all add: pf argAt_def headerMatches_def\<close>)
    qed
  qed
qed

text \<open>
  For a receipt such that every log with its transaction hash is in its own block, the two readings
  agree; in the index with the two sibling blocks they differ.
\<close>

lemma rctSelected_own_logs:
  assumes "list_all (\<lambda>lg. l_rct_id lg \<noteq> r_tx_id r
             \<or> (l_header_id lg = r_header_id r \<and> l_block_number lg = r_block_number r)) (log_cids db)"
  shows "rctSelected db f txHashes r = selectedByOwnLogs db f txHashes r"
proof -
  have "list_ex (\<lambda>lg. l_rct_id lg = r_tx_id r \<and> logMatches f lg) (log_cids db)
          = list_ex (logMatches f) (logsOfReceipt db r)"
    using assms by (auto simp: list_ex_iff list_all_iff logsOfReceipt_def)
  then show ?thesis by (simp add: rctSelected_def selectedByOwnLogs_def)
qed

lemma forkDb_not_own:
  "rctSelected forkDb addressY [] rctInA \<and> \<not> selectedByOwnLogs forkDb addressY [] rctInA"
  by (simp add: rctSelected_def selectedByOwnLogs_def byLogs_def byHashes_def addressY_def
      logMatches_def logsOfReceipt_def forkDb_def rctInA_def logInB_def)

text \<open>
  C3: a receipt of the header is selected exactly when one of its logs matches the
  address and topic restrictions, or \<open>MatchTxs\<close> is set and its \<open>tx_id\<close> is among
  the given hashes. The subquery of the code takes the \<open>rct_id\<close> of every matching
  log of the index, whatever its block, and compares it with the \<open>tx_id\<close> of the
  receipt. For the transaction above and the address filter \<open>0xY\<close>, the receipt of
  block \<open>0xhA\<close> is selected although it has no log: the matching log belongs to the
  receipt of the sibling block \<open>0xhB\<close>.
\<close>

theorem C3_receipt_selected_by_foreign_log:
  "RetrieveRctCIDs forkDb addressY 0 ''0xhA'' [] = Inr [rctInA]
   \<and> logsOfReceipt forkDb rctInA = []
   \<and> logsOfReceipt forkDb rctInB = [logInB]"
  by (simp add: RetrieveRctCIDs_def receiptFilterConditions_def addressY_def hasTopics_def orTxHashes_def
      selectReceipts_def forkDb_def parseLogGroupOpen_def parseLogGroup_def parseOrTxIdAny_def
      argAt_def textArrayAt_def rctJoin_def rctJoined_def selectRctIdFromLogCids_def logsOfReceipt_def
      hdrA_def hdrB_def txInA_def txInB_def rctInA_def rctInB_def logInB_def upt_rec)

section \<open>Properties of the IPLD retriever\<close>

subsection \<open>C1: a storage slot deleted after its newest leaf\<close>

lemmas selfDestruct_defs = selfDestructDb_def headerOne_def headerTwo_def contractState_def
  removedState_def slotLeaf_def slotRemoved_def sampleKeccak_def

lemma selfDestruct_info:
  "retrieveStorageInfo selfDestructDb (sampleKeccak ''0xc'') ''0xslot'' ''0xh2''
     = Inr \<lparr>si_CID = ''cidG1'', si_Data = [0xC2, 0x01, 0x02], si_Path = [0x05], si_BlockNumber = 1\<rparr>"
  by (simp add: retrieveStorageInfo_def selfDestruct_defs blockNumberOfHash_def
      storageRows_def atOrBefore_def isCanonical_def newestFirst_def)

lemma selfDestruct_before:
  "RetrieveStorageAtByAddressAndStorageKeyAndBlockHash sampleDecode sampleKeccak selfDestructDb
     ''0xc'' ''0xslot'' ''0xh1'' = Returns (Inr (''cidG1'', [0x02]))"
  by (simp add: RetrieveStorageAtByAddressAndStorageKeyAndBlockHash_def retrieveStorageInfo_def
      selfDestruct_defs blockNumberOfHash_def
      storageRows_def atOrBefore_def isCanonical_def newestFirst_def wasNodeDeleted_def
      deletionRows_def decodeLeafValue_def sampleDecode_def)

lemma selfDestruct_deleted: "wasNodeDeleted selfDestructDb [0x05] 1 ''0xh2'' = Inr True"
  by (simp add: selfDestruct_defs blockNumberOfHash_def atOrBefore_def wasNodeDeleted_def
      deletionRows_def)

lemma selfDestruct_healthy: "pg_fault selfDestructDb = None"
  by (simp add: selfDestructDb_def)

text \<open>
  C1 says that the operation then returns the canonical empty-node byte sequence, which
  the glossary of the spec defines as the 32-byte-zero value (\<open>EmptyNodeValue\<close>).
  The code returns \<^verbatim>\<open>"", []byte{}, nil\<close>: an empty CID and a byte sequence of
  length zero.
\<close>

theorem C1_deleted_storage_counterexample:
  "RetrieveStorageAtByAddressAndStorageKeyAndBlockHash sampleDecode sampleKeccak selfDestructDb
     ''0xc'' ''0xslot'' ''0xh2'' = Returns (Inr ([], []))
   \<and> [] \<noteq> EmptyNodeValue"
  by (simp add: RetrieveStorageAtByAddressAndStorageKeyAndBlockHash_def selfDestruct_info
      selfDestruct_deleted selfDestruct_healthy EmptyNodeValue_def)

text \<open>
  C1 (amended): for every address, storage key and block hash \<open>H\<close> of the index,
  with \<open>n\<close> the number of \<open>H\<close>: if the first statement selects a newest storage
  leaf row, and a storage row with \<open>node_type = 3\<close> exists on the same
  \<open>storage_path\<close> whose block (that of the header of its state row) is later than
  the selected row's and at most \<open>n\<close>, then the operation returns an empty CID and
  the byte sequence of length zero, with no error, whatever the leaf holds (the decoder
  is not consulted).
\<close>

theorem C1_deleted_storage:
  assumes "pg_fault db = None"
    and "blockNumberOfHash db hash = Inr (Some n)"
    and "retrieveStorageInfo db (keccak addr) storageLeafKey hash = Inr info"
    and "sg \<in> set (pg_storage_cids db)" "st \<in> set (pg_state_cids db)" "hdr \<in> set (pg_header_cids db)"
    and "pg_state_id sg = ps_id st" "ps_header_id st = ph_id hdr"
    and "pg_storage_path sg = si_Path info" "pg_node_type sg = 3"
    and "si_BlockNumber info < ph_block_number hdr" "ph_block_number hdr \<le> n"
  shows "RetrieveStorageAtByAddressAndStorageKeyAndBlockHash rlpDecode keccak db addr storageLeafKey hash
           = Returns (Inr ([], []))"
proof -
  have "(sg, st, hdr) \<in> set (deletionRows db (si_Path info) (si_BlockNumber info) (Some n))"
    using assms(4-12) by (simp add: deletionRows_def atOrBefore_def)
  then have "deletionRows db (si_Path info) (si_BlockNumber info) (Some n) \<noteq> []" by auto
  then have "wasNodeDeleted db (si_Path info) (si_BlockNumber info) hash = Inr True"
    using assms(1,2) by (simp add: wasNodeDeleted_def)
  then show ?thesis
    using assms(1,3) by (simp add: RetrieveStorageAtByAddressAndStorageKeyAndBlockHash_def)
qed


theorem C1_deleted_storage_witness:
  "pg_fault selfDestructDb = None
   \<and> blockNumberOfHash selfDestructDb ''0xh2'' = Inr (Some 2)
   \<and> retrieveStorageInfo selfDestructDb (sampleKeccak ''0xc'') ''0xslot'' ''0xh2''
       = Inr \<lparr>si_CID = ''cidG1'', si_Data = [0xC2, 0x01, 0x02], si_Path = [0x05], si_BlockNumber = 1\<rparr>
   \<and> slotRemoved \<in> set (pg_storage_cids selfDestructDb)
   \<and> pg_node_type slotRemoved = 3 \<and> pg_storage_path slotRemoved = [0x05]
   \<and> RetrieveStorageAtByAddressAndStorageKeyAndBlockHash sampleDecode sampleKeccak selfDestructDb
         ''0xc'' ''0xslot'' ''0xh2'' = Returns (Inr ([], []))"
proof -
  let ?info = "\<lparr>si_CID = ''cidG1'', si_Data = [0xC2, 0x01, 0x02], si_Path = [0x05], si_BlockNumber = 1\<rparr>"
  have n: "blockNumberOfHash selfDestructDb ''0xh2'' = Inr (Some 2)"
    by (simp add: selfDestruct_defs blockNumberOfHash_def)
  have m: "slotRemoved \<in> set (pg_storage_cids selfDestructDb)"
      "removedState \<in> set (pg_state_cids selfDestructDb)"
      "headerTwo \<in> set (pg_header_cids selfDestructDb)"
    by (simp_all add: selfDestructDb_def)
  have j: "pg_state_id slotRemoved = ps_id removedState" "ps_header_id removedState = ph_id headerTwo"
      "pg_storage_path slotRemoved = si_Path ?info" "pg_node_type slotRemoved = 3"
      "si_BlockNumber ?info < ph_block_number headerTwo" "ph_block_number headerTwo \<le> 2"
    by (simp_all add: slotRemoved_def removedState_def headerTwo_def)
  have "RetrieveStorageAtByAddressAndStorageKeyAndBlockHash sampleDecode sampleKeccak selfDestructDb
         ''0xc'' ''0xslot'' ''0xh2'' = Returns (Inr ([], []))"
    by (rule C1_deleted_storage [where keccak = sampleKeccak and addr = "''0xc''",
          OF selfDestruct_healthy n selfDestruct_info m j])
  then show ?thesis
    using n m(1) j(3,4) by (simp add: selfDestruct_healthy selfDestruct_info)
qed


subsection \<open>C2: an account whose newest row is a removed node\<close>

text \<open>
  C2 says that the account read reports an account as empty when the newest canonical
  state row for its leaf key is a removed node. \<open>RetrieveAccountByAddressAndBlockHash\<close>
  (marked \<^verbatim>\<open>TODO: ensure this handles deleted accounts appropriately\<close>) never looks at
  \<open>node_type\<close>: it decodes the IPLD block of whatever row is newest. At block 1 the
  account below is read from its leaf; at block 2, where its newest row is the removed
  node, the read fails with a decoding error.
\<close>

theorem C2_removed_account_is_decoded:
  "RetrieveAccountByAddressAndBlockHash sampleDecode sampleKeccak removedAccountDb ''0xc'' ''0xh1''
     = Returns (Inr (''cidS1'', [0x02]))
   \<and> ps_node_type removedState = 3
   \<and> RetrieveAccountByAddressAndBlockHash sampleDecode sampleKeccak removedAccountDb ''0xc'' ''0xh2''
     = Returns (Inl (WrappedError ''error decoding state leaf node rlp'' (OtherError ''EOF'')))"
  by (simp add: RetrieveAccountByAddressAndBlockHash_def getAccountByLeafKeyAndBlockHash_def
      removedAccountDb_def headerOne_def headerTwo_def contractState_def removedState_def
      sampleKeccak_def blockNumberOfHash_def accountRows_def atOrBefore_def isCanonical_def
      newestFirst_def decodeLeafValue_def sampleDecode_def)

end
